theory Spec2Isabelle
  imports Main "HOL-Library.AList"
begin

section \<open>Python values, dictionaries and exceptions\<close>

text \<open>
  The extension works on the dictionaries handed over by the extraction backend. A value
  stored in such a dictionary is \<^verbatim>\<open>None\<close>, an integer, a string, a list or a nested
  dictionary. A dictionary is an association list: Python dictionaries keep insertion
  order, and \<open>AList.update\<close> overwrites a key in place or appends a new one at the end, as
  \<^verbatim>\<open>d[k] = v\<close> does.
\<close>

datatype pyval =
    PNone
  | PInt int
  | PStr string
  | PList "pyval list"
  | PDict "(string \<times> pyval) list"

type_synonym pydict = "(string \<times> pyval) list"

datatype error =
    KeyError string
  | TypeError
  | ValueError
  | AttributeError
  | FileNotFoundError string
  | IsADirectoryError string
  | OverflowError
  | PyException string
  | DownloadError string

text \<open>Truth value testing (\<^verbatim>\<open>if v:\<close>, \<^verbatim>\<open>a or b\<close>).\<close>

fun truthy :: "pyval \<Rightarrow> bool" where
  "truthy PNone = False"
| "truthy (PInt i) = (i \<noteq> 0)"
| "truthy (PStr s) = (s \<noteq> [])"
| "truthy (PList l) = (l \<noteq> [])"
| "truthy (PDict d) = (d \<noteq> [])"

definition py_or :: "pyval \<Rightarrow> pyval \<Rightarrow> pyval" where
  "py_or a b = (if truthy a then a else b)"

text \<open>\<^verbatim>\<open>d.get(k)\<close>, \<^verbatim>\<open>d.get(k, default)\<close>, \<^verbatim>\<open>d[k]\<close> and \<^verbatim>\<open>d[k] = v\<close>.\<close>

definition dict_get :: "pydict \<Rightarrow> string \<Rightarrow> pyval" where
  "dict_get d k = (case map_of d k of None \<Rightarrow> PNone | Some v \<Rightarrow> v)"

definition dict_get_default :: "pydict \<Rightarrow> string \<Rightarrow> pyval \<Rightarrow> pyval" where
  "dict_get_default d k dflt = (case map_of d k of None \<Rightarrow> dflt | Some v \<Rightarrow> v)"

definition dict_item :: "pydict \<Rightarrow> string \<Rightarrow> error + pyval" where
  "dict_item d k = (case map_of d k of None \<Rightarrow> Inl (KeyError k) | Some v \<Rightarrow> Inr v)"

definition dict_set :: "pydict \<Rightarrow> string \<Rightarrow> pyval \<Rightarrow> pydict" where
  "dict_set d k v = AList.update k v d"

text \<open>Iterating over a value (\<^verbatim>\<open>for f in v\<close>): a dictionary yields its keys, a string its
  characters, \<^verbatim>\<open>None\<close> and integers are not iterable.\<close>

fun py_iter :: "pyval \<Rightarrow> error + pyval list" where
  "py_iter (PList l) = Inr l"
| "py_iter (PStr s) = Inr (map (\<lambda>c. PStr [c]) s)"
| "py_iter (PDict d) = Inr (map (\<lambda>kv. PStr (fst kv)) d)"
| "py_iter PNone = Inl TypeError"
| "py_iter (PInt i) = Inl TypeError"

text \<open>\<^verbatim>\<open>set(...)\<close> and \<^verbatim>\<open>x in some_set\<close> hash their elements: lists and dictionaries are
  unhashable.\<close>

fun hashable :: "pyval \<Rightarrow> bool" where
  "hashable (PList l) = False"
| "hashable (PDict d) = False"
| "hashable v = True"

text \<open>Integer addition \<^verbatim>\<open>n + v\<close> with an integer on the left: every other kind of value of
  this model on the right raises \<^verbatim>\<open>TypeError\<close>.\<close>

fun py_add_int :: "int \<Rightarrow> pyval \<Rightarrow> error + int" where
  "py_add_int n (PInt k) = Inr (n + k)"
| "py_add_int n v = Inl TypeError"

text \<open>Decimal rendering of integers, as \<^verbatim>\<open>str\<close> and \<^verbatim>\<open>format\<close> print them.\<close>

fun dec_nat :: "nat \<Rightarrow> string" where
  "dec_nat n =
     (if n < 10 then [''0123456789'' ! n]
      else dec_nat (n div 10) @ [''0123456789'' ! (n mod 10)])"

definition dec_int :: "int \<Rightarrow> string" where
  "dec_int i = (if i < 0 then CHR ''-'' # dec_nat (nat (- i)) else dec_nat (nat i))"

section \<open>Data of the extension and of its collaborators\<close>

text \<open>An extraction result (\<^verbatim>\<open>ie_result\<close>): its scalar attributes and, when the key
  \<^verbatim>\<open>'entries'\<close> is present, the sequence of entry dictionaries it yields.\<close>

record ie_result =
  attrs :: pydict
  entries :: "pydict list option"

record struct_time =
  tm_year :: int
  tm_mon :: int
  tm_mday :: int
  tm_hour :: int
  tm_min :: int
  tm_sec :: int
  tm_wday :: int
  tm_yday :: int
  tm_isdst :: int

text \<open>The file system seen by \<^verbatim>\<open>os.stat\<close>, \<^verbatim>\<open>os.path.isfile\<close>, \<^verbatim>\<open>os.remove\<close> and
  \<^verbatim>\<open>os.rename\<close>: a path holds a regular file with its contents, a directory with the size
  \<^verbatim>\<open>stat\<close> reports for it, or nothing.\<close>

datatype fnode = RegFile string | Directory nat

type_synonym fs = "string \<rightharpoonup> fnode"

text \<open>What one run of the backend's downloading \<^verbatim>\<open>extract_info\<close> does: the progress events it
  hands to the hook, the file system it leaves, and the dictionary it returns or the
  exception it raises. An exception of the hook ends the run early: \<open>fs_aborted i\<close> is the
  file system the backend leaves when the hook raises at the event of index \<open>i\<close>.\<close>

record download_outcome =
  events :: "pydict list"
  fs_after :: fs
  fs_aborted :: "nat \<Rightarrow> fs"
  dl_result :: "error + pydict"

text \<open>
  Everything the module calls but does not define is a parameter:
  the Python runtime (\<open>repr_compound\<close>: \<^verbatim>\<open>str\<close> of a list or dictionary; \<open>int_of_str\<close>:
  \<^verbatim>\<open>int\<close> of a string; \<open>local_epoch\<close>: the local time zone that \<^verbatim>\<open>time.mktime\<close> consults, which
  maps a wall-clock time, counted in seconds as if it were UTC, to the Unix timestamp at which
  local clocks show it, or to nothing when the platform cannot represent it;
  \<open>re_sub_links\<close>: the \<^verbatim>\<open>re.sub\<close> call of \<^verbatim>\<open>nice_html_description\<close>), gPodder (\<open>gettext\<close>, \<open>remove_html_tags\<close>,
  \<open>mimetype_from_extension\<close>, \<open>get_cover\<close>, \<open>get_channel_desc\<close>) and youtube-dl
  (\<open>sanitize_url\<close>; \<open>extract_info\<close> with \<^verbatim>\<open>download=False, process=False\<close>, given the URL
  and the \<^verbatim>\<open>ie_key\<close>; \<open>process_ie_result\<close> with \<^verbatim>\<open>download=False\<close>, which returns the
  dictionary as it has mutated it and the exception it raised, if any; \<open>ydl_download\<close>:
  \<^verbatim>\<open>extract_info\<close> with \<^verbatim>\<open>download=True\<close>, given the URL, the output template and the file
  system). The option dictionaries handed to \<^verbatim>\<open>YoutubeDL\<close> are constants of the
  configuration and belong to these parameters.
\<close>

record externals =
  repr_compound :: "pyval \<Rightarrow> string"
  int_of_str :: "string \<Rightarrow> int option"
  local_epoch :: "int \<Rightarrow> int option"
  re_sub_links :: "string \<Rightarrow> string"
  gettext :: "string \<Rightarrow> string"
  remove_html_tags :: "pyval \<Rightarrow> error + string"
  mimetype_from_extension :: "string \<Rightarrow> pyval"
  get_cover :: "string \<Rightarrow> pyval"
  get_channel_desc :: "string \<Rightarrow> pyval"
  sanitize_url :: "pyval \<Rightarrow> error + pyval"
  extract_info :: "pyval \<Rightarrow> pyval \<Rightarrow> error + ie_result"
  process_ie_result :: "ie_result \<Rightarrow> ie_result \<times> error option"
  ydl_download :: "string \<Rightarrow> string \<Rightarrow> fs \<Rightarrow> download_outcome"

text \<open>\<^verbatim>\<open>'{}'.format(v)\<close>, that is \<^verbatim>\<open>str(v)\<close>.\<close>

fun py_str :: "externals \<Rightarrow> pyval \<Rightarrow> string" where
  "py_str X PNone = ''None''"
| "py_str X (PInt i) = dec_int i"
| "py_str X (PStr s) = s"
| "py_str X (PList l) = repr_compound X (PList l)"
| "py_str X (PDict d) = repr_compound X (PDict d)"

text \<open>\<^verbatim>\<open>int(v)\<close>.\<close>

fun py_int :: "externals \<Rightarrow> pyval \<Rightarrow> error + int" where
  "py_int X (PInt i) = Inr i"
| "py_int X (PStr s) = (case int_of_str X s of None \<Rightarrow> Inl ValueError | Some i \<Rightarrow> Inr i)"
| "py_int X v = Inl TypeError"

section \<open>Identifier and date utilities\<close>

text \<open>
  The two library calls of \<^verbatim>\<open>youtube_parsedate\<close> are not part of the module; they are
  written out here as CPython computes them.

  \<^verbatim>\<open>time.strptime(s, "%Y%m%d")\<close> (\<^verbatim>\<open>Lib/_strptime.py\<close>) matches the regular expression
  \<^verbatim>\<open>(\d\d\d\d)(1[0-2]|0[1-9]|[1-9])(3[0-1]|[1-2]\d|0[1-9]|[1-9]| [1-9])\<close> at the start of the
  string, alternatives tried in order with backtracking, and takes the first match; it
  raises \<^verbatim>\<open>ValueError\<close> when there is no match, when the match does not reach the end of the
  string, and when year, month and day name no date of \<^verbatim>\<open>datetime.date\<close> (years start at 1).
  Strings are ASCII here: the digits of \<^verbatim>\<open>\d\<close> are 0 to 9. The result has the date, midnight,
  the weekday (Monday is 0), the day of the year and \<^verbatim>\<open>tm_isdst = -1\<close>.

  \<^verbatim>\<open>time.mktime\<close> reads the structure as local time and returns the Unix timestamp, in whole
  seconds here, or raises \<^verbatim>\<open>OverflowError\<close>.
\<close>

definition digit_val :: "char \<Rightarrow> nat" where
  "digit_val c = of_char c - 48"

definition is_leap :: "nat \<Rightarrow> bool" where
  "is_leap y \<longleftrightarrow> y mod 4 = 0 \<and> (y mod 100 \<noteq> 0 \<or> y mod 400 = 0)"

definition days_in_month :: "nat \<Rightarrow> nat \<Rightarrow> nat" where
  "days_in_month y m =
     (if m = 2 then (if is_leap y then 29 else 28)
      else if m \<in> {4, 6, 9, 11} then 30 else 31)"

definition days_before_year :: "nat \<Rightarrow> nat" where
  "days_before_year y = (y - 1) * 365 + (y - 1) div 4 + (y - 1) div 400 - (y - 1) div 100"

definition days_before_month :: "nat \<Rightarrow> nat \<Rightarrow> nat" where
  "days_before_month y m = sum_list (map (days_in_month y) [1..<m])"

text \<open>\<^verbatim>\<open>date(y, m, d).toordinal()\<close>: day 1 is 1 January of year 1.\<close>

definition toordinal :: "nat \<Rightarrow> nat \<Rightarrow> nat \<Rightarrow> nat" where
  "toordinal y m d = days_before_year y + days_before_month y m + d"

text \<open>Pieces of the expression at the start of a string: two characters from two classes
  read as a two-digit number, one character read as a digit, and a space before a digit.
  Each gives at most one match, with the number it stands for and the rest of the string.\<close>

definition two_chars :: "string \<Rightarrow> string \<Rightarrow> string \<Rightarrow> (nat \<times> string) list" where
  "two_chars A B s =
     (case s of
        c1 # c2 # r \<Rightarrow>
          if c1 \<in> set A \<and> c2 \<in> set B then [(10 * digit_val c1 + digit_val c2, r)] else []
      | _ \<Rightarrow> [])"

definition one_char :: "string \<Rightarrow> string \<Rightarrow> (nat \<times> string) list" where
  "one_char A s =
     (case s of c1 # r \<Rightarrow> if c1 \<in> set A then [(digit_val c1, r)] else [] | [] \<Rightarrow> [])"

definition space_char :: "string \<Rightarrow> string \<Rightarrow> (nat \<times> string) list" where
  "space_char B s =
     (case s of
        c1 # c2 # r \<Rightarrow> if c1 = CHR '' '' \<and> c2 \<in> set B then [(digit_val c2, r)] else []
      | _ \<Rightarrow> [])"

text \<open>The alternatives of the month group, \<^verbatim>\<open>1[0-2]|0[1-9]|[1-9]\<close>, and of the day group,
  \<^verbatim>\<open>3[0-1]|[1-2]\d|0[1-9]|[1-9]| [1-9]\<close>, that match at the start of a string, in the order
  the expression tries them.\<close>

definition month_alts :: "string \<Rightarrow> (nat \<times> string) list" where
  "month_alts s =
     two_chars ''1'' ''012'' s @ two_chars ''0'' ''123456789'' s @ one_char ''123456789'' s"

definition day_alts :: "string \<Rightarrow> (nat \<times> string) list" where
  "day_alts s =
     two_chars ''3'' ''01'' s @ two_chars ''12'' ''0123456789'' s
     @ two_chars ''0'' ''123456789'' s @ one_char ''123456789'' s
     @ space_char ''123456789'' s"

definition strptime_ymd :: "string \<Rightarrow> error + struct_time" where
  "strptime_ymd s =
     (case s of
        y1 # y2 # y3 # y4 # rest \<Rightarrow>
          if set [y1, y2, y3, y4] \<subseteq> set ''0123456789'' then
            (let year = 1000 * digit_val y1 + 100 * digit_val y2 + 10 * digit_val y3
                        + digit_val y4;
                 found = concat (map (\<lambda>mr. map (\<lambda>dr. (fst mr, fst dr, snd dr))
                                              (day_alts (snd mr)))
                                   (month_alts rest))
             in case found of
                  [] \<Rightarrow> Inl ValueError
                | (month, day, unconverted) # _ \<Rightarrow>
                    if unconverted \<noteq> [] then Inl ValueError
                    else if year < 1 \<or> days_in_month year month < day then Inl ValueError
                    else Inr \<lparr>tm_year = int year, tm_mon = int month, tm_mday = int day,
                              tm_hour = 0, tm_min = 0, tm_sec = 0,
                              tm_wday = int ((toordinal year month day + 6) mod 7),
                              tm_yday = int (days_before_month year month + day),
                              tm_isdst = - 1\<rparr>)
          else Inl ValueError
      | _ \<Rightarrow> Inl ValueError)"

text \<open>The wall-clock time of a structure in seconds, counted as if it were UTC
  (1 January 1970 has the ordinal 719163).\<close>

definition timegm :: "struct_time \<Rightarrow> int" where
  "timegm st =
     (int (toordinal (nat (tm_year st)) (nat (tm_mon st)) (nat (tm_mday st))) - 719163) * 86400
     + tm_hour st * 3600 + tm_min st * 60 + tm_sec st"

definition mktime :: "externals \<Rightarrow> struct_time \<Rightarrow> error + int" where
  "mktime X st =
     (case local_epoch X (timegm st) of None \<Rightarrow> Inl OverflowError | Some t \<Rightarrow> Inr t)"

definition youtube_parsedate :: "externals \<Rightarrow> pyval \<Rightarrow> error + int" where
  "youtube_parsedate X s =
     (if truthy s then
        (case s of
           PStr str \<Rightarrow>
             (case strptime_ymd str of
                Inl e \<Rightarrow> Inl e
              | Inr st \<Rightarrow> mktime X st)
         | _ \<Rightarrow> Inl TypeError)
      else Inr 0)"

definition video_guid :: "externals \<Rightarrow> pyval \<Rightarrow> string" where
  "video_guid X video_id = ''yt:video:'' @ py_str X video_id"

section \<open>The progress hook of a download\<close>

text \<open>A \<^verbatim>\<open>YoutubeCustomDownload\<close>. The host's report hook is a callable or \<^verbatim>\<open>None\<close>;
  \<open>reported\<close> lists the argument triples it has been called with, oldest first.\<close>

record custom_download =
  dl_url :: string
  reporthook :: bool
  prev_dl_bytes :: int
  reported :: "(int \<times> int \<times> int) list"

definition new_download :: "string \<Rightarrow> custom_download" where
  "new_download u = \<lparr>dl_url = u, reporthook = False, prev_dl_bytes = 0, reported = []\<rparr>"

definition my_hook :: "custom_download \<Rightarrow> pydict \<Rightarrow> error + custom_download" where
  "my_hook self d =
     (case dict_item d ''status'' of
        Inl e \<Rightarrow> Inl e
      | Inr status \<Rightarrow>
          if status = PStr ''downloading'' then
            (if reporthook self then
               (case dict_item d ''downloaded_bytes'' of
                  Inl e \<Rightarrow> Inl e
                | Inr dl_bytes \<Rightarrow>
                    let total_bytes =
                          py_or (py_or (dict_get d ''total_bytes'')
                                       (dict_get d ''total_bytes_estimate'')) (PInt 0)
                    in (case py_add_int (prev_dl_bytes self) dl_bytes of
                          Inl e \<Rightarrow> Inl e
                        | Inr done_bytes \<Rightarrow>
                            (case py_add_int (prev_dl_bytes self) total_bytes of
                               Inl e \<Rightarrow> Inl e
                             | Inr all_bytes \<Rightarrow>
                                 Inr (self\<lparr>reported :=
                                        reported self @ [(done_bytes, 1, all_bytes)]\<rparr>))))
             else Inr self)
          else if status = PStr ''finished'' then
            (case dict_item d ''downloaded_bytes'' of
               Inl e \<Rightarrow> Inl e
             | Inr dl_bytes \<Rightarrow>
                 (case py_add_int (prev_dl_bytes self) dl_bytes of
                    Inl e \<Rightarrow> Inl e
                  | Inr p \<Rightarrow>
                      let self' = self\<lparr>prev_dl_bytes := p\<rparr>
                      in if reporthook self'
                         then Inr (self'\<lparr>reported := reported self' @ [(p, 1, p)]\<rparr>)
                         else Inr self'))
          else Inr self)"

text \<open>The backend calls the hook once per event, in order, counting from \<open>i\<close>. An exception
  of the hook ends the sequence: the result is the download as the earlier events have left
  it, with the index of the event that raised and the exception.\<close>

fun feed_events ::
  "custom_download \<Rightarrow> pydict list \<Rightarrow> nat \<Rightarrow> custom_download \<times> (nat \<times> error) option" where
  "feed_events self [] i = (self, None)"
| "feed_events self (d # ds) i =
     (case my_hook self d of
        Inl e \<Rightarrow> (self, Some (i, e))
      | Inr self' \<Rightarrow> feed_events self' ds (Suc i))"

section \<open>The download of one episode\<close>

definition st_size :: "fnode \<Rightarrow> nat" where
  "st_size n = (case n of RegFile c \<Rightarrow> length c | Directory k \<Rightarrow> k)"

definition os_stat :: "fs \<Rightarrow> string \<Rightarrow> error + nat" where
  "os_stat f p = (case f p of None \<Rightarrow> Inl (FileNotFoundError p) | Some n \<Rightarrow> Inr (st_size n))"

definition os_path_isfile :: "fs \<Rightarrow> string \<Rightarrow> bool" where
  "os_path_isfile f p = (case f p of Some (RegFile c) \<Rightarrow> True | _ \<Rightarrow> False)"

definition os_remove :: "fs \<Rightarrow> string \<Rightarrow> error + fs" where
  "os_remove f p =
     (case f p of
        None \<Rightarrow> Inl (FileNotFoundError p)
      | Some (Directory k) \<Rightarrow> Inl (IsADirectoryError p)
      | Some (RegFile c) \<Rightarrow> Inr (f(p := None)))"

definition os_rename :: "fs \<Rightarrow> string \<Rightarrow> string \<Rightarrow> error + fs" where
  "os_rename f src dst =
     (case f src of
        None \<Rightarrow> Inl (FileNotFoundError src)
      | Some n \<Rightarrow>
          if src = dst then Inr f
          else (case f dst of
                  Some (Directory k) \<Rightarrow> Inl (IsADirectoryError dst)
                | _ \<Rightarrow> Inr (f(src := None, dst \<mapsto> n))))"

text \<open>\<^verbatim>\<open>gPodderYoutubeDL.fetch_video\<close>: the backend runs with the hook as its progress hook.\<close>

definition fetch_video ::
  "externals \<Rightarrow> string \<Rightarrow> string \<Rightarrow> custom_download \<Rightarrow> fs
     \<Rightarrow> (custom_download \<times> fs) \<times> (error + pydict)" where
  "fetch_video X u tempname self f =
     (let out = ydl_download X u tempname f
      in case feed_events self (events out) 0 of
           (self', Some (i, e)) \<Rightarrow> ((self', fs_aborted out i), Inl e)
         | (self', None) \<Rightarrow> ((self', fs_after out), dl_result out))"

definition retrieve_resume ::
  "externals \<Rightarrow> custom_download \<Rightarrow> string \<Rightarrow> bool \<Rightarrow> fs
     \<Rightarrow> (custom_download \<times> fs) \<times> (error + pydict \<times> pyval)" where
  "retrieve_resume X self0 tempname hook f0 =
     (let self1 = self0\<lparr>reporthook := hook\<rparr>
      in case fetch_video X (dl_url self1) tempname self1 f0 of
           ((self, f), Inl e) \<Rightarrow> ((self, f), Inl e)
         | ((self, f), Inr res) \<Rightarrow>
             let final_url = dict_get_default res ''url'' (PStr (dl_url self))
             in (case map_of res ''ext'' of
                   None \<Rightarrow> ((self, f), Inr ([], final_url))
                 | Some ext \<Rightarrow>
                     let dot_ext = ''.'' @ py_str X ext;
                         ext_filetype = mimetype_from_extension X dot_ext;
                         headers = (if truthy ext_filetype
                                    then [(''content-type'', ext_filetype)] else [])
                     in (case os_stat f tempname of
                           Inl e \<Rightarrow> ((self, f), Inl e)
                         | Inr tempstat \<Rightarrow>
                             if tempstat = 0 then
                               (let tempname_with_ext = tempname @ dot_ext
                                in if os_path_isfile f tempname_with_ext then
                                     (case os_remove f tempname of
                                        Inl e \<Rightarrow> ((self, f), Inl e)
                                      | Inr f1 \<Rightarrow>
                                          (case os_rename f1 tempname_with_ext tempname of
                                             Inl e \<Rightarrow> ((self, f1), Inl e)
                                           | Inr f2 \<Rightarrow> ((self, f2), Inr (headers, final_url))))
                                   else ((self, f), Inr (headers, final_url)))
                             else ((self, f), Inr (headers, final_url)))))"

section \<open>The feed: filtering and deduplicating entries\<close>

record youtube_feed =
  feed_url :: string
  cover_url :: pyval
  description :: pyval
  max_episodes :: int
  feed_ie_result :: ie_result

definition is_youtube_url :: "pydict \<Rightarrow> bool" where
  "is_youtube_url e \<longleftrightarrow>
     dict_get_default e ''_type'' (PStr ''video'') = PStr ''url''
     \<and> dict_get e ''ie_key'' = PStr ''Youtube''"

text \<open>The body of the loop of \<^verbatim>\<open>_process_entries\<close> up to the test of the cap: one entry is
  looked at, with the list of kept entries and the set of GUIDs seen so far.\<close>

definition visit_entry ::
  "externals \<Rightarrow> pydict \<Rightarrow> pydict list \<times> string set \<Rightarrow> error + pydict list \<times> string set" where
  "visit_entry X e st =
     (case st of (filtered_entries, seen_guids) \<Rightarrow>
        if is_youtube_url e then
          (case dict_item e ''id'' of
             Inl err \<Rightarrow> Inl err
           | Inr video_id \<Rightarrow>
               let guid = video_guid X video_id;
                   e' = dict_set e ''guid'' (PStr guid)
               in if guid \<in> seen_guids then Inr (filtered_entries, seen_guids)
                  else Inr (filtered_entries @ [e'], insert guid seen_guids))
        else Inr (filtered_entries, seen_guids))"

text \<open>The loop. The input is the sequence the generator would yield; the first component
  of the result counts the elements pulled from it, the second is the returned list or the
  exception raised.\<close>

fun process_loop ::
  "externals \<Rightarrow> int \<Rightarrow> pydict list \<Rightarrow> pydict list \<times> string set \<Rightarrow> nat
     \<Rightarrow> nat \<times> (error + pydict list)" where
  "process_loop X m [] st i = (i, Inr (fst st))"
| "process_loop X m (e # es) st i =
     (case visit_entry X e st of
        Inl err \<Rightarrow> (Suc i, Inl err)
      | Inr st' \<Rightarrow>
          if int (length (fst st')) = m then (Suc i, Inr (fst st'))
          else process_loop X m es st' (Suc i))"

definition process_entries ::
  "externals \<Rightarrow> int \<Rightarrow> pydict list \<Rightarrow> nat \<times> (error + pydict list)" where
  "process_entries X m es = process_loop X m es ([], {}) 0"

text \<open>\<^verbatim>\<open>YoutubeFeed.__init__\<close>.\<close>

definition new_feed ::
  "externals \<Rightarrow> string \<Rightarrow> pyval \<Rightarrow> pyval \<Rightarrow> int \<Rightarrow> ie_result \<Rightarrow> error + youtube_feed" where
  "new_feed X u cover descr m r =
     (case snd (process_entries X m (case entries r of None \<Rightarrow> [] | Some es \<Rightarrow> es)) of
        Inl e \<Rightarrow> Inl e
      | Inr filtered \<Rightarrow>
          Inr \<lparr>feed_url = u, cover_url = cover, description = descr, max_episodes = m,
               feed_ie_result = r\<lparr>entries := Some filtered\<rparr>\<rparr>)"

section \<open>The feed: new episodes\<close>

text \<open>The fields handed to \<^verbatim>\<open>channel.episode_factory\<close>. The host's episode object is
  identified with them; \<^verbatim>\<open>episode.save()\<close> appends it to \<open>saved\<close>. \<open>enrich_calls\<close> lists the
  arguments \<^verbatim>\<open>process_ie_result\<close> has been called with, oldest first.\<close>

record episode =
  ep_title :: pyval
  ep_link :: pyval
  ep_description :: string
  ep_description_html :: string
  ep_url :: pyval
  ep_file_size :: int
  ep_mime_type :: pyval
  ep_guid :: string
  ep_published :: int
  ep_total_time :: int

record world =
  enrich_calls :: "ie_result list"
  saved :: "episode list"

definition replace_newlines :: "string \<Rightarrow> string" where
  \<open>replace_newlines s = concat (map (\<lambda>c. if c = CHR ''\<newline>'' then ''<br>'' else [c]) s)\<close>

definition nice_html_description :: "externals \<Rightarrow> pydict \<Rightarrow> string \<Rightarrow> string" where
  \<open>nice_html_description X en descr =
     (let description1 = re_sub_links X descr;
          description2 = replace_newlines description1;
          html = ''<style type="text/css">\<newline>        body > img { float: left; max-width: 30vw; margin: 0 1em 1em 0; }\<newline>        </style>\<newline>        '';
          img = dict_get en ''thumbnail'';
          html1 = (if truthy img then html @ ''<img src="'' @ py_str X img @ ''">'' else html)
      in html1 @ ''<p>'' @ description2 @ ''</p>'')\<close>

text \<open>\<^verbatim>\<open>sum(int(f.get('filesize') or 0) for f in ...)\<close>: an element that is not a dictionary
  has no \<^verbatim>\<open>get\<close>.\<close>

fun sum_filesizes :: "externals \<Rightarrow> pyval list \<Rightarrow> error + int" where
  "sum_filesizes X [] = Inr 0"
| "sum_filesizes X (f # fs) =
     (case f of
        PDict d \<Rightarrow>
          (case py_int X (py_or (dict_get d ''filesize'') (PInt 0)) of
             Inl e \<Rightarrow> Inl e
           | Inr n \<Rightarrow>
               (case sum_filesizes X fs of Inl e \<Rightarrow> Inl e | Inr rest \<Rightarrow> Inr (n + rest)))
      | _ \<Rightarrow> Inl AttributeError)"

text \<open>The body of the loop over the entries of \<^verbatim>\<open>get_new_episodes\<close>, up to the dictionary
  \<^verbatim>\<open>ep\<close>.\<close>

definition episode_of_entry :: "externals \<Rightarrow> pydict \<Rightarrow> error + episode" where
  "episode_of_entry X en =
     (case dict_item en ''id'' of
        Inl e \<Rightarrow> Inl e
      | Inr video_id \<Rightarrow>
     let guid = video_guid X video_id in
     (case remove_html_tags X
             (py_or (dict_get en ''description'') (PStr (gettext X ''No description available''))) of
        Inl e \<Rightarrow> Inl e
      | Inr descr \<Rightarrow>
     let html_description = nice_html_description X en descr;
         mime_type =
           (if truthy (dict_get en ''ext'')
            then mimetype_from_extension X (''.'' @ py_str X (dict_get en ''ext''))
            else PStr ''application/octet-stream'')
     in
     (case (if truthy (dict_get en ''filesize'')
            then py_int X (py_or (dict_get en ''filesize'') (PInt 0))
            else (case py_iter (dict_get_default en ''requested_formats'' (PList [])) of
                    Inl e \<Rightarrow> Inl e
                  | Inr fs \<Rightarrow> sum_filesizes X fs)) of
        Inl e \<Rightarrow> Inl e
      | Inr filesize \<Rightarrow>
     (case youtube_parsedate X (dict_get_default en ''upload_date'' PNone) of
        Inl e \<Rightarrow> Inl e
      | Inr published \<Rightarrow>
     (case py_int X (py_or (dict_get en ''duration'') (PInt 0)) of
        Inl e \<Rightarrow> Inl e
      | Inr total_time \<Rightarrow>
          Inr \<lparr>ep_title = dict_get_default en ''title'' (PStr guid),
               ep_link = dict_get en ''webpage_url'',
               ep_description = descr,
               ep_description_html = html_description,
               ep_url = dict_get en ''webpage_url'',
               ep_file_size = filesize,
               ep_mime_type = mime_type,
               ep_guid = guid,
               ep_published = published,
               ep_total_time = total_time\<rparr>)))))"

fun make_episodes ::
  "externals \<Rightarrow> pydict list \<Rightarrow> world \<Rightarrow> world \<times> (error + episode list)" where
  "make_episodes X [] w = (w, Inr [])"
| "make_episodes X (en # ens) w =
     (case episode_of_entry X en of
        Inl e \<Rightarrow> (w, Inl e)
      | Inr ep \<Rightarrow>
          (case make_episodes X ens (w\<lparr>saved := saved w @ [ep]\<rparr>) of
             (w', Inl e) \<Rightarrow> (w', Inl e)
           | (w', Inr eps) \<Rightarrow> (w', Inr (ep # eps))))"

text \<open>\<^verbatim>\<open>gPodderYoutubeDL.refresh_entries\<close>: one call of the backend on the dictionary, which it
  mutates; a \<^verbatim>\<open>DownloadError\<close> is logged and swallowed, any other exception propagates.\<close>

definition refresh_entries ::
  "externals \<Rightarrow> ie_result \<Rightarrow> int \<Rightarrow> world \<Rightarrow> (ie_result \<times> world) \<times> error option" where
  "refresh_entries X r m w =
     (case process_ie_result X r of
        (r', exc) \<Rightarrow>
          ((r', w\<lparr>enrich_calls := enrich_calls w @ [r]\<rparr>),
           (case exc of
              Some (DownloadError msg) \<Rightarrow> None
            | other \<Rightarrow> other)))"

text \<open>\<^verbatim>\<open>[e for i, e in enumerate(entries) if not max_episodes or i < max_episodes]\<close>.\<close>

definition trim_entries :: "int \<Rightarrow> pydict list \<Rightarrow> pydict list" where
  "trim_entries m es = map snd (filter (\<lambda>ie. m = 0 \<or> int (fst ie) < m) (enumerate 0 es))"

text \<open>\<^verbatim>\<open>set(e['guid'] for e in entries)\<close>: the values in order, or the first exception.\<close>

fun entry_guids :: "pydict list \<Rightarrow> error + pyval list" where
  "entry_guids [] = Inr []"
| "entry_guids (e # es) =
     (case dict_item e ''guid'' of
        Inl err \<Rightarrow> Inl err
      | Inr g \<Rightarrow>
          if hashable g
          then (case entry_guids es of Inl err \<Rightarrow> Inl err | Inr gs \<Rightarrow> Inr (g # gs))
          else Inl TypeError)"

text \<open>\<^verbatim>\<open>get_new_episodes\<close>. When \<open>new_entries\<close> is computed every trimmed entry has its
  \<^verbatim>\<open>'guid'\<close>, so \<^verbatim>\<open>e['guid']\<close> is read with \<open>dict_get\<close> there. The result is the feed and the
  world as the call leaves them, and the returned pair or the exception.\<close>

definition get_new_episodes ::
  "externals \<Rightarrow> youtube_feed \<Rightarrow> world \<Rightarrow> pyval set
     \<Rightarrow> (youtube_feed \<times> world) \<times> (error + episode list \<times> pyval set)" where
  "get_new_episodes X self w existing_guids =
     (case entries (feed_ie_result self) of
        None \<Rightarrow> ((self, w), Inl (KeyError ''entries''))
      | Some all_entries \<Rightarrow>
     let trimmed = trim_entries (max_episodes self) all_entries in
     (case entry_guids trimmed of
        Inl e \<Rightarrow> ((self, w), Inl e)
      | Inr guids \<Rightarrow>
     let all_seen_guids = set guids;
         new_entries = filter (\<lambda>e. dict_get e ''guid'' \<notin> existing_guids) trimmed;
         r1 = (feed_ie_result self)\<lparr>entries := Some new_entries\<rparr>
     in
     (case refresh_entries X r1 (max_episodes self) w of
        ((r2, w1), Some e) \<Rightarrow> ((self\<lparr>feed_ie_result := r2\<rparr>, w1), Inl e)
      | ((r2, w1), None) \<Rightarrow>
     let self2 = self\<lparr>feed_ie_result := r2\<rparr> in
     (case entries r2 of
        None \<Rightarrow> ((self2, w1), Inl (KeyError ''entries''))
      | Some ens \<Rightarrow>
          (case make_episodes X ens w1 of
             (w2, Inl e) \<Rightarrow> ((self2, w2), Inl e)
           | (w2, Inr episodes) \<Rightarrow> ((self2, w2), Inr (episodes, all_seen_guids)))))))"

section \<open>Resolving a channel or playlist URL\<close>

text \<open>\<^verbatim>\<open>extract_type\<close>, the local function of \<^verbatim>\<open>refresh\<close>.\<close>

definition extract_result_type :: "externals \<Rightarrow> ie_result \<Rightarrow> error + pyval \<times> bool" where
  "extract_result_type X r =
     (let result_type = dict_get_default (attrs r) ''_type'' (PStr ''video'')
      in if result_type \<notin> {PStr ''url'', PStr ''playlist'', PStr ''multi_video''}
         then Inl (PyException (''Unsuported result_type: '' @ py_str X result_type))
         else Inr (result_type, result_type \<in> {PStr ''playlist'', PStr ''multi_video''}))"

text \<open>The \<^verbatim>\<open>while not has_playlist\<close> loop of \<^verbatim>\<open>refresh\<close>, on its three variables. Nothing
  bounds the number of redirections the backend may answer with, so the loop is a partial
  function: \<open>None\<close> is a run that never ends, \<open>Some (Inl e)\<close> an exception.\<close>

partial_function (option) resolve_loop ::
  "externals \<Rightarrow> ie_result \<Rightarrow> pyval \<Rightarrow> bool \<Rightarrow> (error + ie_result) option" where
  "resolve_loop X r result_type has_playlist =
     (if has_playlist then Some (Inr r)
      else
        (case (if result_type \<in> {PStr ''url'', PStr ''url_transparent''}
               then (case dict_item (attrs r) ''url'' of
                       Inl e \<Rightarrow> Inl e
                     | Inr u \<Rightarrow>
                         (case sanitize_url X u of
                            Inl e \<Rightarrow> Inl e
                          | Inr u' \<Rightarrow> Inr (r\<lparr>attrs := dict_set (attrs r) ''url'' u'\<rparr>)))
               else Inr r) of
           Inl e \<Rightarrow> Some (Inl e)
         | Inr r1 \<Rightarrow>
             (case (if result_type = PStr ''url''
                    then (case dict_item (attrs r1) ''url'' of
                            Inl e \<Rightarrow> Inl e
                          | Inr u \<Rightarrow> extract_info X u (dict_get (attrs r1) ''ie_key''))
                    else Inr r1) of
                Inl e \<Rightarrow> Some (Inl e)
              | Inr r2 \<Rightarrow>
                  (case extract_result_type X r2 of
                     Inl e \<Rightarrow> Some (Inl e)
                   | Inr (result_type', has_playlist') \<Rightarrow>
                       resolve_loop X r2 result_type' has_playlist'))))"

text \<open>\<^verbatim>\<open>gPodderYoutubeDL.refresh\<close>; the result is the feed that \<^verbatim>\<open>feedcore.Result\<close> wraps.\<close>

definition refresh ::
  "externals \<Rightarrow> string \<Rightarrow> string \<Rightarrow> int \<Rightarrow> (error + youtube_feed) option" where
  "refresh X u channel_url m =
     (case extract_info X (PStr u) PNone of
        Inl e \<Rightarrow> Some (Inl e)
      | Inr r \<Rightarrow>
          (case extract_result_type X r of
             Inl e \<Rightarrow> Some (Inl e)
           | Inr (result_type, has_playlist) \<Rightarrow>
               (case resolve_loop X r result_type has_playlist of
                  None \<Rightarrow> None
                | Some (Inl e) \<Rightarrow> Some (Inl e)
                | Some (Inr r') \<Rightarrow>
                    Some (new_feed X u (get_cover X channel_url) (get_channel_desc X channel_url)
                            m r'))))"

section \<open>Notions used in the statements\<close>

text \<open>The GUID that \<^verbatim>\<open>_process_entries\<close> derives for an entry, and the entry as line 140
  leaves it, with its \<^verbatim>\<open>'guid'\<close> set.\<close>

definition derived_guid :: "externals \<Rightarrow> pydict \<Rightarrow> string" where
  "derived_guid X e = video_guid X (dict_get e ''id'')"




text \<open>Calendar dates and their spellings: the eight digits \<^verbatim>\<open>YYYYMMDD\<close>, and every string
  made of the four digits of the year, the month as two digits or as a single digit, and the
  day as two digits, as a single digit or as a space and a digit.\<close>

definition digit_char :: "nat \<Rightarrow> char" where
  "digit_char n = ''0123456789'' ! n"

definition two_digits :: "nat \<Rightarrow> string" where
  "two_digits n = [digit_char (n div 10), digit_char (n mod 10)]"

definition four_digits :: "nat \<Rightarrow> string" where
  "four_digits y =
     [digit_char (y div 1000), digit_char (y div 100 mod 10), digit_char (y div 10 mod 10),
      digit_char (y mod 10)]"

definition is_date :: "nat \<Rightarrow> nat \<Rightarrow> nat \<Rightarrow> bool" where
  "is_date y m d \<longleftrightarrow>
     1 \<le> y \<and> y \<le> 9999 \<and> 1 \<le> m \<and> m \<le> 12 \<and> 1 \<le> d \<and> d \<le> days_in_month y m"

definition yyyymmdd :: "nat \<Rightarrow> nat \<Rightarrow> nat \<Rightarrow> string" where
  "yyyymmdd y m d = four_digits y @ two_digits m @ two_digits d"

definition month_spellings :: "nat \<Rightarrow> string list" where
  "month_spellings m = two_digits m # (if m < 10 then [[digit_char m]] else [])"

definition day_spellings :: "nat \<Rightarrow> string list" where
  "day_spellings d =
     two_digits d # (if d < 10 then [[digit_char d], [CHR '' '', digit_char d]] else [])"

definition accepted_spellings :: "nat \<Rightarrow> nat \<Rightarrow> nat \<Rightarrow> string list" where
  "accepted_spellings y m d =
     concat (map (\<lambda>ms. map (\<lambda>ds. four_digits y @ ms @ ds) (day_spellings d))
               (month_spellings m))"

text \<open>The Unix timestamp at which local clocks show 00:00:00 on a date, or the exception
  of \<^verbatim>\<open>mktime\<close> when the platform has none.\<close>

definition local_midnight :: "externals \<Rightarrow> nat \<Rightarrow> nat \<Rightarrow> nat \<Rightarrow> error + int" where
  "local_midnight X y m d =
     (case local_epoch X ((int (toordinal y m d) - 719163) * 86400) of
        None \<Rightarrow> Inl OverflowError
      | Some t \<Rightarrow> Inr t)"

section \<open>Sample inputs\<close>

text \<open>Collaborators that answer nothing: no backend result, no MIME type; local time is
  UTC.\<close>

definition null_externals :: externals where
  "null_externals =
     \<lparr>repr_compound = (\<lambda>v. []),
      int_of_str = (\<lambda>s. None),
      local_epoch = (\<lambda>t. Some t),
      re_sub_links = (\<lambda>s. s),
      gettext = (\<lambda>s. s),
      remove_html_tags = (\<lambda>v. case v of PStr s \<Rightarrow> Inr s | _ \<Rightarrow> Inl TypeError),
      mimetype_from_extension = (\<lambda>s. PNone),
      get_cover = (\<lambda>u. PNone),
      get_channel_desc = (\<lambda>u. PNone),
      sanitize_url = (\<lambda>u. Inr u),
      extract_info = (\<lambda>u k. Inl (DownloadError [])),
      process_ie_result = (\<lambda>r. (r, None)),
      ydl_download = (\<lambda>u t f. \<lparr>events = [], fs_after = f, fs_aborted = (\<lambda>i. f),
                                 dl_result = Inl (DownloadError [])\<rparr>)\<rparr>"

text \<open>An entry of a listing that names a video, the same entry once
  \<^verbatim>\<open>_process_entries\<close> has set its GUID, and an entry that names no video.\<close>

definition yt_entry :: "string \<Rightarrow> pydict" where
  "yt_entry vid = [(''_type'', PStr ''url''), (''ie_key'', PStr ''Youtube''), (''id'', PStr vid)]"

definition yt_entry_guid :: "string \<Rightarrow> pydict" where
  "yt_entry_guid vid = yt_entry vid @ [(''guid'', PStr (''yt:video:'' @ vid))]"

definition channel_entry :: pydict where
  "channel_entry = [(''_type'', PStr ''playlist''), (''id'', PStr ''x'')]"

text \<open>A download backend that merges two formats: it leaves the requested path empty and
  the media at the path with the extension appended.\<close>

definition merged_download_externals :: externals where
  "merged_download_externals =
     null_externals\<lparr>ydl_download := (\<lambda>u t f.
        \<lparr>events = [[(''status'', PStr ''finished''), (''downloaded_bytes'', PInt 4)]],
         fs_after = f(t \<mapsto> RegFile [], t @ ''.mp4'' \<mapsto> RegFile ''data''),
         fs_aborted = (\<lambda>i. f),
         dl_result = Inr [(''ext'', PStr ''mp4'')]\<rparr>)\<rparr>"

text \<open>A runtime whose local time is two hours ahead of UTC.\<close>

definition cest_externals :: externals where
  "cest_externals = null_externals\<lparr>local_epoch := (\<lambda>t. Some (t - 7200))\<rparr>"

text \<open>A feed of five videos capped at four, a world in which nothing has happened yet,
  and a backend that answers every entry with a freshly extracted dictionary: the video's
  id and a title, and none of the keys the entry had.\<close>

definition sample_feed :: youtube_feed where
  "sample_feed =
     \<lparr>feed_url = ''https://www.youtube.com/channel/x'', cover_url = PNone, description = PNone,
      max_episodes = 4,
      feed_ie_result =
        \<lparr>attrs = [(''_type'', PStr ''playlist'')],
         entries = Some [yt_entry_guid ''a'', yt_entry_guid ''b'', yt_entry_guid ''c'',
                         yt_entry_guid ''d'', yt_entry_guid ''e'']\<rparr>\<rparr>"

definition empty_world :: world where
  "empty_world = \<lparr>enrich_calls = [], saved = []\<rparr>"

definition fresh_info_externals :: externals where
  "fresh_info_externals =
     null_externals\<lparr>process_ie_result := (\<lambda>r.
        (r\<lparr>entries :=
             map_option (map (\<lambda>e. [(''id'', dict_get e ''id''), (''title'', PStr ''t'')]))
               (entries r)\<rparr>, None))\<rparr>"

text \<open>Backends for the resolver: a chain of two \<^verbatim>\<open>url_transparent\<close> results before the
  playlist, the same chain with \<^verbatim>\<open>url\<close> results (and one more address that answers
  \<^verbatim>\<open>url_transparent\<close>), and a backend that answers every URL with the given attributes and
  no entries.\<close>

definition transparent_chain_externals :: externals where
  "transparent_chain_externals =
     null_externals\<lparr>extract_info := (\<lambda>u k.
        if u = PStr ''https://www.youtube.com/channel/x''
        then Inr \<lparr>attrs = [(''_type'', PStr ''url_transparent''), (''url'', PStr ''u1'')],
                  entries = None\<rparr>
        else if u = PStr ''u1''
        then Inr \<lparr>attrs = [(''_type'', PStr ''url_transparent''), (''url'', PStr ''u2'')],
                  entries = None\<rparr>
        else if u = PStr ''u2''
        then Inr \<lparr>attrs = [(''_type'', PStr ''playlist''), (''id'', PStr ''x'')],
                  entries = Some [yt_entry ''a'']\<rparr>
        else Inl (DownloadError []))\<rparr>"

definition url_chain_externals :: externals where
  "url_chain_externals =
     null_externals\<lparr>extract_info := (\<lambda>u k.
        if u = PStr ''https://www.youtube.com/channel/x''
        then Inr \<lparr>attrs = [(''_type'', PStr ''url''), (''url'', PStr ''u1'')],
                  entries = None\<rparr>
        else if u = PStr ''u1''
        then Inr \<lparr>attrs = [(''_type'', PStr ''url''), (''url'', PStr ''u2''),
                           (''ie_key'', PStr ''YoutubeTab'')],
                  entries = None\<rparr>
        else if u = PStr ''u2'' \<and> k = PStr ''YoutubeTab''
        then Inr \<lparr>attrs = [(''_type'', PStr ''playlist''), (''id'', PStr ''x'')],
                  entries = Some [yt_entry ''a'']\<rparr>
        else if u = PStr ''https://example.org/embedded''
        then Inr \<lparr>attrs = [(''_type'', PStr ''url_transparent''), (''url'', PStr ''u2'')],
                  entries = None\<rparr>
        else Inl (DownloadError []))\<rparr>"

definition single_video_externals :: "pydict \<Rightarrow> externals" where
  "single_video_externals info =
     null_externals\<lparr>extract_info := (\<lambda>u k. Inr \<lparr>attrs = info, entries = None\<rparr>)\<rparr>"

section \<open>Theorems\<close>

subsection \<open>The cap of the filter loop\<close>

lemma visit_entry_length:
  "visit_entry X e st = Inr st' \<Longrightarrow>
     fst st' = fst st \<or> (\<exists>e'. fst st' = fst st @ [e'])"
  by (auto simp: visit_entry_def Let_def split: prod.splits if_splits sum.splits)

lemma process_loop_count:
  "process_loop X m es st i = (k, r) \<Longrightarrow> i \<le> k \<and> k \<le> i + length es"
proof (induction es arbitrary: st i)
  case Nil
  then show ?case by simp
next
  case (Cons e es)
  show ?case
  proof (cases "visit_entry X e st")
    case (Inl err)
    with Cons.prems show ?thesis by simp
  next
    case (Inr st')
    show ?thesis
    proof (cases "int (length (fst st')) = m")
      case True
      with Inr Cons.prems show ?thesis by simp
    next
      case False
      with Inr Cons.prems have "process_loop X m es st' (Suc i) = (k, r)" by simp
      from Cons.IH [OF this] show ?thesis by simp
    qed
  qed
qed

lemma process_loop_bound:
  "int (length (fst st)) < m \<Longrightarrow> process_loop X m es st i = (k, Inr out)
     \<Longrightarrow> int (length out) \<le> m"
proof (induction es arbitrary: st i)
  case Nil
  then show ?case by simp
next
  case (Cons e es)
  show ?case
  proof (cases "visit_entry X e st")
    case (Inl err)
    with Cons.prems show ?thesis by simp
  next
    case (Inr st')
    from visit_entry_length [OF Inr] Cons.prems(1)
    have le: "int (length (fst st')) \<le> m" by auto
    show ?thesis
    proof (cases "int (length (fst st')) = m")
      case True
      with Inr Cons.prems show ?thesis by simp
    next
      case False
      with le have lt: "int (length (fst st')) < m" by simp
      from False Inr Cons.prems have "process_loop X m es st' (Suc i) = (k, Inr out)" by simp
      from Cons.IH [OF lt this] show ?thesis .
    qed
  qed
qed

lemma process_loop_lazy:
  "process_loop X m es st i = (k, Inr out) \<Longrightarrow> int (length out) = m
     \<Longrightarrow> int (length (fst st)) \<noteq> m
     \<Longrightarrow> process_loop X m (take (k - i) es @ ys) st i = (k, Inr out)"
proof (induction es arbitrary: st i)
  case Nil
  then show ?case by auto
next
  case (Cons e es)
  show ?case
  proof (cases "visit_entry X e st")
    case (Inl err)
    with Cons.prems show ?thesis by simp
  next
    case (Inr st')
    show ?thesis
    proof (cases "int (length (fst st')) = m")
      case True
      with Inr Cons.prems show ?thesis by auto
    next
      case False
      with Inr Cons.prems have run: "process_loop X m es st' (Suc i) = (k, Inr out)" by simp
      from process_loop_count [OF run] have k: "Suc i \<le> k" by simp
      then have "k - i = Suc (k - Suc i)" by arith
      then have tk: "take (k - i) (e # es) = e # take (k - Suc i) es"
        by simp
      from Cons.IH [OF run Cons.prems(2) False]
      show ?thesis using Inr False by (simp add: tk)
    qed
  qed
qed

lemma process_loop_last_accept:
  "process_loop X m es st i = (k, Inr out) \<Longrightarrow> int (length out) = m
     \<Longrightarrow> int (length (fst st)) < m
     \<Longrightarrow> i < k \<and> process_loop X m (take (k - i - 1) es) st i = (k - 1, Inr (butlast out))"
proof (induction es arbitrary: st i)
  case Nil
  then show ?case by auto
next
  case (Cons e es)
  show ?case
  proof (cases "visit_entry X e st")
    case (Inl err)
    with Cons.prems show ?thesis by simp
  next
    case (Inr st')
    from visit_entry_length [OF Inr]
    have shape: "fst st' = fst st \<or> (\<exists>e'. fst st' = fst st @ [e'])" .
    show ?thesis
    proof (cases "int (length (fst st')) = m")
      case True
      with Inr Cons.prems have kout: "k = Suc i" "out = fst st'" by auto
      from True Cons.prems(3) shape obtain e' where "fst st' = fst st @ [e']" by auto
      with kout show ?thesis by simp
    next
      case False
      with Inr Cons.prems have run: "process_loop X m es st' (Suc i) = (k, Inr out)" by simp
      from shape Cons.prems(3) False have lt: "int (length (fst st')) < m" by auto
      from Cons.IH [OF run Cons.prems(2) lt]
      have ih: "Suc i < k" "process_loop X m (take (k - Suc i - 1) es) st' (Suc i) = (k - 1, Inr (butlast out))"
        by auto
      from ih(1) have "k - i - 1 = Suc (k - Suc i - 1)" by arith
      then have tk: "take (k - i - 1) (e # es) = e # take (k - Suc i - 1) es"
        by simp
      have "process_loop X m (take (k - i - 1) (e # es)) st i
              = process_loop X m (take (k - Suc i - 1) es) st' (Suc i)"
        unfolding tk using Inr False by simp
      with ih show ?thesis by simp
    qed
  qed
qed

text \<open>
  C1. With a cap \<open>N > 0\<close>, \<^verbatim>\<open>_process_entries\<close> pulls \<open>k\<close> elements from its input, never
  more than the input has. When it returns a list, the list has at most \<open>N\<close> entries. When
  the list has \<open>N\<close> entries, the \<open>N\<close>th acceptance was at the last element pulled (the
  first \<open>k - 1\<close> elements alone give all but the last entry, and all of them are read), and
  nothing behind it is read: whatever follows the first \<open>k\<close> elements, the run pulls exactly
  these \<open>k\<close> and returns the same list.
\<close>

theorem process_entries_cap:
  assumes "0 < N" and "process_entries X N xs = (k, r)"
  shows "k \<le> length xs \<and>
         (\<forall>out. r = Inr out \<longrightarrow>
            int (length out) \<le> N \<and>
            (int (length out) = N \<longrightarrow>
               0 < k \<and>
               process_entries X N (take (k - 1) xs) = (k - 1, Inr (butlast out)) \<and>
               (\<forall>ys. process_entries X N (take k xs @ ys) = (k, Inr out))))"
proof -
  from assms(2) have run: "process_loop X N xs ([], {}) 0 = (k, r)"
    by (simp add: process_entries_def)
  from process_loop_count [OF run] have "k \<le> length xs" by simp
  moreover
  { fix out assume r: "r = Inr out"
    from assms(1) have "int (length (fst (([], {}) :: pydict list \<times> string set))) < N" by simp
    from process_loop_bound [OF this] run r have "int (length out) \<le> N" by blast }
  moreover
  { fix out assume r: "r = Inr out" and full: "int (length out) = N"
    from assms(1) have lt: "int (length (fst (([], {}) :: pydict list \<times> string set))) < N" by simp
    from run r have run': "process_loop X N xs ([], {}) 0 = (k, Inr out)" by simp
    from process_loop_last_accept [OF run' full lt]
    have a: "0 < k" "process_entries X N (take (k - 1) xs) = (k - 1, Inr (butlast out))"
      by (simp_all add: process_entries_def)
    from lt have ne: "int (length (fst (([], {}) :: pydict list \<times> string set))) \<noteq> N" by simp
    have "\<And>ys. process_entries X N (take k xs @ ys) = (k, Inr out)"
      using process_loop_lazy [OF run' full ne] by (simp add: process_entries_def)
    with a have "0 < k \<and>
               process_entries X N (take (k - 1) xs) = (k - 1, Inr (butlast out)) \<and>
               (\<forall>ys. process_entries X N (take k xs @ ys) = (k, Inr out))" by blast }
  ultimately show ?thesis by blast
qed

theorem process_entries_cap_witness:
  "(0::int) < 2 \<and>
   process_entries null_externals 2
     [yt_entry ''a'', channel_entry, yt_entry ''a'', yt_entry ''b'', yt_entry ''c'']
     = (4, Inr [yt_entry_guid ''a'', yt_entry_guid ''b'']) \<and>
   process_entries null_externals 2
     (take (4 - 1) [yt_entry ''a'', channel_entry, yt_entry ''a'', yt_entry ''b'', yt_entry ''c''])
     = (4 - 1, Inr (butlast [yt_entry_guid ''a'', yt_entry_guid ''b''])) \<and>
   process_entries null_externals 2
     (take 4 [yt_entry ''a'', channel_entry, yt_entry ''a'', yt_entry ''b'', yt_entry ''c'']
        @ [channel_entry, channel_entry])
     = (4, Inr [yt_entry_guid ''a'', yt_entry_guid ''b''])"
proof -
  have pos: "(0::int) < 2" by simp
  have run: "process_entries null_externals 2
     [yt_entry ''a'', channel_entry, yt_entry ''a'', yt_entry ''b'', yt_entry ''c'']
     = (4, Inr [yt_entry_guid ''a'', yt_entry_guid ''b''])"
    by (simp add: process_entries_def visit_entry_def is_youtube_url_def dict_get_default_def
          dict_get_def dict_item_def dict_set_def video_guid_def yt_entry_def yt_entry_guid_def
          channel_entry_def Let_def)
  from process_entries_cap [OF pos run] pos run show ?thesis by simp
qed

subsection \<open>Deduplication by GUID\<close>












subsection \<open>The cap of zero\<close>

text \<open>
  C3. With \<^verbatim>\<open>max_episodes == 0\<close> the loop is meant to read the whole sequence. The test
  \<^verbatim>\<open>len(filtered_entries) == self._max_episodes\<close> runs after every element, also after a
  rejected one, so a sequence whose first element is rejected is abandoned after that single
  element, with nothing emitted, although an acceptable entry follows.
\<close>

theorem process_entries_unlimited_stops_early:
  "process_entries X 0
     [[(''_type'', PStr ''playlist''), (''id'', PStr ''x'')],
      [(''_type'', PStr ''url''), (''ie_key'', PStr ''Youtube''), (''id'', PStr ''a'')]]
   = (1, Inr [])"
  by (simp add: process_entries_def visit_entry_def is_youtube_url_def
        dict_get_default_def dict_get_def)

subsection \<open>The progress hook\<close>

lemma my_hook_downloading:
  assumes "reporthook self" "map_of d ''status'' = Some (PStr ''downloading'')"
    "map_of d ''downloaded_bytes'' = Some (PInt n)"
    "py_or (py_or (dict_get d ''total_bytes'') (dict_get d ''total_bytes_estimate'')) (PInt 0) = PInt t"
  shows "my_hook self d =
     Inr (self\<lparr>reported := reported self @ [(prev_dl_bytes self + n, 1, prev_dl_bytes self + t)]\<rparr>)"
  using assms by (simp add: my_hook_def dict_item_def Let_def)

lemma my_hook_finished:
  assumes "reporthook self" "map_of d ''status'' = Some (PStr ''finished'')"
    "map_of d ''downloaded_bytes'' = Some (PInt n)"
  shows "my_hook self d =
     Inr (self\<lparr>prev_dl_bytes := prev_dl_bytes self + n,
               reported := reported self @ [(prev_dl_bytes self + n, 1, prev_dl_bytes self + n)]\<rparr>)"
  using assms by (simp add: my_hook_def dict_item_def Let_def)

text \<open>
  C5. From a fresh download with a report hook, the events
  \<^verbatim>\<open>downloading(downloaded_bytes=500, total_bytes=1000)\<close>, \<^verbatim>\<open>finished(downloaded_bytes=1000)\<close>,
  \<^verbatim>\<open>downloading(downloaded_bytes=200, total_bytes=2000)\<close>, whatever other keys they carry,
  make the hook report exactly \<open>(500, 1, 1000)\<close>, \<open>(1000, 1, 1000)\<close>, \<open>(1200, 1, 3000)\<close>. On a
  \<^verbatim>\<open>downloading\<close> event without \<^verbatim>\<open>total_bytes\<close> the reported total is the running count plus
  \<^verbatim>\<open>total_bytes_estimate\<close> when the event has one, and the running count plus 0 when it
  has none.
\<close>

theorem my_hook_accumulates:
  "(map_of d1 ''status'' = Some (PStr ''downloading'') \<and>
    map_of d1 ''downloaded_bytes'' = Some (PInt 500) \<and>
    map_of d1 ''total_bytes'' = Some (PInt 1000) \<and>
    map_of d2 ''status'' = Some (PStr ''finished'') \<and>
    map_of d2 ''downloaded_bytes'' = Some (PInt 1000) \<and>
    map_of d3 ''status'' = Some (PStr ''downloading'') \<and>
    map_of d3 ''downloaded_bytes'' = Some (PInt 200) \<and>
    map_of d3 ''total_bytes'' = Some (PInt 2000)
    \<longrightarrow> feed_events ((new_download u)\<lparr>reporthook := True\<rparr>) [d1, d2, d3] 0
          = (\<lparr>dl_url = u, reporthook = True, prev_dl_bytes = 1000,
              reported = [(500, 1, 1000), (1000, 1, 1000), (1200, 1, 3000)]\<rparr>, None))
   \<and> (reporthook self \<and>
      map_of d ''status'' = Some (PStr ''downloading'') \<and>
      map_of d ''downloaded_bytes'' = Some (PInt n) \<and>
      map_of d ''total_bytes'' = None
      \<longrightarrow> (map_of d ''total_bytes_estimate'' = Some (PInt t)
             \<longrightarrow> my_hook self d =
                  Inr (self\<lparr>reported := reported self
                              @ [(prev_dl_bytes self + n, 1, prev_dl_bytes self + t)]\<rparr>))
        \<and> (map_of d ''total_bytes_estimate'' = None
             \<longrightarrow> my_hook self d =
                  Inr (self\<lparr>reported := reported self
                              @ [(prev_dl_bytes self + n, 1, prev_dl_bytes self + 0)]\<rparr>)))"
proof (intro conjI impI)
  assume a: "map_of d1 ''status'' = Some (PStr ''downloading'') \<and>
    map_of d1 ''downloaded_bytes'' = Some (PInt 500) \<and>
    map_of d1 ''total_bytes'' = Some (PInt 1000) \<and>
    map_of d2 ''status'' = Some (PStr ''finished'') \<and>
    map_of d2 ''downloaded_bytes'' = Some (PInt 1000) \<and>
    map_of d3 ''status'' = Some (PStr ''downloading'') \<and>
    map_of d3 ''downloaded_bytes'' = Some (PInt 200) \<and>
    map_of d3 ''total_bytes'' = Some (PInt 2000)"
  let ?s0 = "\<lparr>dl_url = u, reporthook = True, prev_dl_bytes = 0, reported = []\<rparr>"
  let ?s1 = "\<lparr>dl_url = u, reporthook = True, prev_dl_bytes = 0,
               reported = [(500, 1, 1000)]\<rparr>"
  let ?s2 = "\<lparr>dl_url = u, reporthook = True, prev_dl_bytes = 1000,
               reported = [(500, 1, 1000), (1000, 1, 1000)]\<rparr>"
  let ?s3 = "\<lparr>dl_url = u, reporthook = True, prev_dl_bytes = 1000,
               reported = [(500, 1, 1000), (1000, 1, 1000), (1200, 1, 3000)]\<rparr>"
  have t1: "py_or (py_or (dict_get d1 ''total_bytes'') (dict_get d1 ''total_bytes_estimate'')) (PInt 0) = PInt 1000"
    using a by (simp add: py_or_def dict_get_def)
  have t3: "py_or (py_or (dict_get d3 ''total_bytes'') (dict_get d3 ''total_bytes_estimate'')) (PInt 0) = PInt 2000"
    using a by (simp add: py_or_def dict_get_def)
  have h1: "my_hook ?s0 d1 = Inr ?s1"
    using my_hook_downloading [of ?s0 d1 500 1000] a t1 by simp
  have h2: "my_hook ?s1 d2 = Inr ?s2"
    using my_hook_finished [of ?s1 d2 1000] a by simp
  have h3: "my_hook ?s2 d3 = Inr ?s3"
    using my_hook_downloading [of ?s2 d3 200 2000] a t3 by simp
  show "feed_events ((new_download u)\<lparr>reporthook := True\<rparr>) [d1, d2, d3] 0 = (?s3, None)"
    by (simp add: new_download_def h1 h2 h3)
next
  assume a: "reporthook self \<and>
      map_of d ''status'' = Some (PStr ''downloading'') \<and>
      map_of d ''downloaded_bytes'' = Some (PInt n) \<and>
      map_of d ''total_bytes'' = None"
    and e: "map_of d ''total_bytes_estimate'' = Some (PInt t)"
  have "py_or (py_or (dict_get d ''total_bytes'') (dict_get d ''total_bytes_estimate'')) (PInt 0) = PInt t"
    using a e by (simp add: py_or_def dict_get_def)
  with a show "my_hook self d =
                  Inr (self\<lparr>reported := reported self
                              @ [(prev_dl_bytes self + n, 1, prev_dl_bytes self + t)]\<rparr>)"
    by (simp add: my_hook_downloading)
next
  assume a: "reporthook self \<and>
      map_of d ''status'' = Some (PStr ''downloading'') \<and>
      map_of d ''downloaded_bytes'' = Some (PInt n) \<and>
      map_of d ''total_bytes'' = None"
    and e: "map_of d ''total_bytes_estimate'' = None"
  have "py_or (py_or (dict_get d ''total_bytes'') (dict_get d ''total_bytes_estimate'')) (PInt 0) = PInt 0"
    using a e by (simp add: py_or_def dict_get_def)
  with a show "my_hook self d =
                  Inr (self\<lparr>reported := reported self
                              @ [(prev_dl_bytes self + n, 1, prev_dl_bytes self + 0)]\<rparr>)"
    using my_hook_downloading [of self d n 0] by simp
qed

theorem my_hook_accumulates_witness:
  "feed_events ((new_download ''w'')\<lparr>reporthook := True\<rparr>)
     [[(''status'', PStr ''downloading''), (''downloaded_bytes'', PInt 500),
       (''total_bytes'', PInt 1000)],
      [(''status'', PStr ''finished''), (''downloaded_bytes'', PInt 1000)],
      [(''status'', PStr ''downloading''), (''downloaded_bytes'', PInt 200),
       (''total_bytes'', PInt 2000)]] 0
     = (\<lparr>dl_url = ''w'', reporthook = True, prev_dl_bytes = 1000,
         reported = [(500, 1, 1000), (1000, 1, 1000), (1200, 1, 3000)]\<rparr>, None)
   \<and> my_hook \<lparr>dl_url = ''w'', reporthook = True, prev_dl_bytes = 1000, reported = []\<rparr>
        [(''status'', PStr ''downloading''), (''downloaded_bytes'', PInt 7),
         (''total_bytes_estimate'', PInt 9)]
     = Inr \<lparr>dl_url = ''w'', reporthook = True, prev_dl_bytes = 1000,
            reported = [(1007, 1, 1009)]\<rparr>
   \<and> my_hook \<lparr>dl_url = ''w'', reporthook = True, prev_dl_bytes = 1000, reported = []\<rparr>
        [(''status'', PStr ''downloading''), (''downloaded_bytes'', PInt 7)]
     = Inr \<lparr>dl_url = ''w'', reporthook = True, prev_dl_bytes = 1000,
            reported = [(1007, 1, 1000)]\<rparr>"
  using
    my_hook_accumulates [where
      ?d1.0 = "[(''status'', PStr ''downloading''), (''downloaded_bytes'', PInt 500),
                (''total_bytes'', PInt 1000)]" and
      ?d2.0 = "[(''status'', PStr ''finished''), (''downloaded_bytes'', PInt 1000)]" and
      ?d3.0 = "[(''status'', PStr ''downloading''), (''downloaded_bytes'', PInt 200),
                (''total_bytes'', PInt 2000)]" and
      u = "''w''" and
      self = "\<lparr>dl_url = ''w'', reporthook = True, prev_dl_bytes = 1000, reported = []\<rparr>" and
      d = "[(''status'', PStr ''downloading''), (''downloaded_bytes'', PInt 7),
            (''total_bytes_estimate'', PInt 9)]" and n = 7 and t = 9]
    my_hook_accumulates [where
      ?d1.0 = "[(''status'', PStr ''downloading''), (''downloaded_bytes'', PInt 500),
                (''total_bytes'', PInt 1000)]" and
      ?d2.0 = "[(''status'', PStr ''finished''), (''downloaded_bytes'', PInt 1000)]" and
      ?d3.0 = "[(''status'', PStr ''downloading''), (''downloaded_bytes'', PInt 200),
                (''total_bytes'', PInt 2000)]" and
      u = "''w''" and
      self = "\<lparr>dl_url = ''w'', reporthook = True, prev_dl_bytes = 1000, reported = []\<rparr>" and
      d = "[(''status'', PStr ''downloading''), (''downloaded_bytes'', PInt 7)]" and n = 7]
  by simp

subsection \<open>Repairing the output path\<close>

lemma append_dot_ne: "tempname @ CHR ''.'' # ext \<noteq> tempname"
proof
  assume "tempname @ CHR ''.'' # ext = tempname"
  then have "length (tempname @ CHR ''.'' # ext) = length tempname" by simp
  then show False by simp
qed

text \<open>
  C8. When the backend's result reports an extension and the backend has left an empty
  regular file at the requested path and a nonempty regular file at that path with a dot
  and the extension appended, \<^verbatim>\<open>retrieve_resume\<close> returns normally, and in the file system it
  leaves, the requested path holds the nonempty file, the suffixed path holds nothing, and
  every other path is as the backend left it.
\<close>

theorem retrieve_resume_repairs_path:
  assumes backend: "ydl_download X (dl_url self0) tempname f0 = out"
    and hooks: "feed_events (self0\<lparr>reporthook := hook\<rparr>) (events out) 0 = (self, None)"
    and result: "dl_result out = Inr res"
    and ext: "map_of res ''ext'' = Some ext"
    and empty: "fs_after out tempname = Some (RegFile [])"
    and suffixed: "fs_after out (tempname @ ''.'' @ py_str X ext) = Some (RegFile c)"
    and nonempty: "c \<noteq> []"
  shows "\<exists>f' r. retrieve_resume X self0 tempname hook f0 = ((self, f'), Inr r)
           \<and> f' tempname = Some (RegFile c)
           \<and> f' (tempname @ ''.'' @ py_str X ext) = None
           \<and> (\<forall>p. p \<noteq> tempname \<and> p \<noteq> tempname @ ''.'' @ py_str X ext
                  \<longrightarrow> f' p = fs_after out p)"
proof -
  let ?twe = "tempname @ ''.'' @ py_str X ext"
  let ?f = "fs_after out"
  have ne: "?twe \<noteq> tempname" using append_dot_ne by simp
  have url: "dl_url (self0\<lparr>reporthook := hook\<rparr>) = dl_url self0" by simp
  have fetch: "fetch_video X (dl_url self0) tempname (self0\<lparr>reporthook := hook\<rparr>) f0
                 = ((self, ?f), Inr res)"
    using backend hooks result by (simp add: fetch_video_def Let_def)
  have stat: "os_stat ?f tempname = Inr 0"
    using empty by (simp add: os_stat_def st_size_def)
  have isfile: "os_path_isfile ?f ?twe"
    using suffixed by (simp add: os_path_isfile_def)
  have rm: "os_remove ?f tempname = Inr (?f(tempname := None))"
    using empty by (simp add: os_remove_def)
  have mv: "os_rename (?f(tempname := None)) ?twe tempname
              = Inr ((?f(tempname := None))(?twe := None, tempname \<mapsto> RegFile c))"
    using suffixed ne by (simp add: os_rename_def)
  have "\<exists>r. retrieve_resume X self0 tempname hook f0
          = ((self, (?f(tempname := None))(?twe := None, tempname \<mapsto> RegFile c)), Inr r)"
    unfolding retrieve_resume_def Let_def url fetch
    using ext stat isfile rm mv by simp
  moreover have "((?f(tempname := None))(?twe := None, tempname \<mapsto> RegFile c)) tempname
                   = Some (RegFile c)" by simp
  moreover have "((?f(tempname := None))(?twe := None, tempname \<mapsto> RegFile c)) ?twe = None"
    using ne by simp
  moreover have "\<forall>p. p \<noteq> tempname \<and> p \<noteq> ?twe
       \<longrightarrow> ((?f(tempname := None))(?twe := None, tempname \<mapsto> RegFile c)) p = ?f p"
    by simp
  ultimately show ?thesis by blast
qed

theorem retrieve_resume_repairs_path_witness:
  "\<exists>f' r. retrieve_resume merged_download_externals (new_download ''v'') ''ep.partial'' True
             Map.empty
           = ((\<lparr>dl_url = ''v'', reporthook = True, prev_dl_bytes = 4,
                reported = [(4, 1, 4)]\<rparr>, f'), Inr r)
        \<and> f' ''ep.partial'' = Some (RegFile ''data'')
        \<and> f' (''ep.partial'' @ ''.'' @ py_str merged_download_externals (PStr ''mp4'')) = None"
proof -
  let ?X = merged_download_externals
  let ?out = "ydl_download ?X (dl_url (new_download ''v'')) ''ep.partial'' Map.empty"
  have backend: "ydl_download ?X (dl_url (new_download ''v'')) ''ep.partial'' Map.empty = ?out"
    by simp
  have hooks: "feed_events ((new_download ''v'')\<lparr>reporthook := True\<rparr>) (events ?out) 0
       = (\<lparr>dl_url = ''v'', reporthook = True, prev_dl_bytes = 4, reported = [(4, 1, 4)]\<rparr>,
          None)"
    by (simp add: merged_download_externals_def null_externals_def new_download_def
          my_hook_def dict_item_def Let_def)
  have result: "dl_result ?out = Inr [(''ext'', PStr ''mp4'')]"
    by (simp add: merged_download_externals_def null_externals_def)
  have ext: "map_of [(''ext'', PStr ''mp4'')] ''ext'' = Some (PStr ''mp4'')" by simp
  have empty: "fs_after ?out ''ep.partial'' = Some (RegFile [])"
    by (simp add: merged_download_externals_def null_externals_def)
  have suffixed: "fs_after ?out (''ep.partial'' @ ''.'' @ py_str ?X (PStr ''mp4''))
                    = Some (RegFile ''data'')"
    by (simp add: merged_download_externals_def null_externals_def)
  have nonempty: "''data'' \<noteq> []" by simp
  from retrieve_resume_repairs_path [OF backend hooks result ext empty suffixed nonempty]
  show ?thesis by blast
qed

subsection \<open>Parsing the upload date\<close>

lemmas date_eval =
  youtube_parsedate_def strptime_ymd_def digit_val_def
  days_in_month_def is_leap_def days_before_year_def days_before_month_def toordinal_def
  timegm_def mktime_def Let_def

lemma below_ten: "n < 10 \<Longrightarrow> n \<in> {0, 1, 2, 3, 4, 5, 6, 7, 8, 9 :: nat}"
  by auto

lemma digit_char_val:
  "n < 10 \<Longrightarrow> digit_val (digit_char n) = n \<and> digit_char n \<in> set ''0123456789''"
  by (drule below_ten) (auto simp: digit_char_def digit_val_def)

lemma digit_val_char:
  "c \<in> set ''0123456789'' \<Longrightarrow> digit_val c < 10 \<and> digit_char (digit_val c) = c"
  by (auto simp: digit_char_def digit_val_def)

lemma div_mod_digit:
  fixes k c :: nat
  assumes "c < 10"
  shows "(10 * k + c) div 10 = k" and "(10 * k + c) mod 10 = c"
  using assms by simp_all

lemma two_digits_chars:
  assumes "c1 \<in> set ''0123456789''" "c2 \<in> set ''0123456789''"
  shows "two_digits (10 * digit_val c1 + digit_val c2) = [c1, c2]"
  using digit_val_char [OF assms(1)] digit_val_char [OF assms(2)]
  by (simp add: two_digits_def div_mod_digit)

lemma two_chars_sound:
  "(n, r) \<in> set (two_chars A B s) \<Longrightarrow>
     \<exists>c1 c2. s = c1 # c2 # r \<and> c1 \<in> set A \<and> c2 \<in> set B
             \<and> n = 10 * digit_val c1 + digit_val c2"
  by (auto simp: two_chars_def split: list.splits if_splits)

lemma one_char_sound:
  "(n, r) \<in> set (one_char A s) \<Longrightarrow> \<exists>c1. s = c1 # r \<and> c1 \<in> set A \<and> n = digit_val c1"
  by (auto simp: one_char_def split: list.splits if_splits)

lemma space_char_sound:
  "(n, r) \<in> set (space_char B s) \<Longrightarrow>
     \<exists>c2. s = CHR '' '' # c2 # r \<and> c2 \<in> set B \<and> n = digit_val c2"
  by (auto simp: space_char_def split: list.splits if_splits)

lemmas alts_eval = month_alts_def day_alts_def two_chars_def one_char_def space_char_def

lemma month_alts_two_digits:
  assumes "1 \<le> m" "m \<le> 12"
  shows "\<exists>more. month_alts (two_digits m @ r) = (m, r) # more"
proof -
  from assms have "m = 1 \<or> m = 2 \<or> m = 3 \<or> m = 4 \<or> m = 5 \<or> m = 6 \<or> m = 7 \<or> m = 8 \<or> m = 9
      \<or> m = 10 \<or> m = 11 \<or> m = 12" by arith
  then show ?thesis
    by (elim disjE) (simp_all add: alts_eval two_digits_def digit_char_def digit_val_def)
qed

lemma day_alts_two_digits:
  assumes "1 \<le> d" "d \<le> 31"
  shows "\<exists>more. day_alts (two_digits d @ r) = (d, r) # more"
proof -
  from assms have "d = 1 \<or> d = 2 \<or> d = 3 \<or> d = 4 \<or> d = 5 \<or> d = 6 \<or> d = 7 \<or> d = 8 \<or> d = 9
      \<or> d = 10 \<or> d = 11 \<or> d = 12 \<or> d = 13 \<or> d = 14 \<or> d = 15 \<or> d = 16 \<or> d = 17 \<or> d = 18
      \<or> d = 19 \<or> d = 20 \<or> d = 21 \<or> d = 22 \<or> d = 23 \<or> d = 24 \<or> d = 25 \<or> d = 26 \<or> d = 27
      \<or> d = 28 \<or> d = 29 \<or> d = 30 \<or> d = 31" by arith
  then show ?thesis
    by (elim disjE) (simp_all add: alts_eval two_digits_def digit_char_def digit_val_def)
qed

lemma two_chars_spelling:
  assumes "(n, r) \<in> set (two_chars A B s)"
    and "set A \<subseteq> set ''0123456789''" "set B \<subseteq> set ''0123456789''"
  shows "s = two_digits n @ r
       \<and> (\<exists>c1 \<in> set A. \<exists>c2 \<in> set B. n = 10 * digit_val c1 + digit_val c2)"
proof -
  from two_chars_sound [OF assms(1)] obtain c1 c2 where
    s: "s = c1 # c2 # r" and c: "c1 \<in> set A" "c2 \<in> set B"
    and n: "n = 10 * digit_val c1 + digit_val c2" by blast
  from c assms(2,3) have "c1 \<in> set ''0123456789''" "c2 \<in> set ''0123456789''" by blast+
  from two_digits_chars [OF this] have "two_digits n = [c1, c2]" by (simp add: n)
  with s c n show ?thesis by auto
qed

lemma one_to_nine:
  "c \<in> set ''123456789'' \<Longrightarrow>
     1 \<le> digit_val c \<and> digit_val c \<le> 9 \<and> digit_char (digit_val c) = c"
  by (auto simp: digit_val_def digit_char_def)

lemma month_alts_sound:
  assumes "(m, r) \<in> set (month_alts s)"
  shows "1 \<le> m \<and> m \<le> 12 \<and> (\<exists>ms \<in> set (month_spellings m). s = ms @ r)"
proof -
  from assms consider
    (a) "(m, r) \<in> set (two_chars ''1'' ''012'' s)"
  | (b) "(m, r) \<in> set (two_chars ''0'' ''123456789'' s)"
  | (c) "(m, r) \<in> set (one_char ''123456789'' s)"
    by (auto simp: month_alts_def)
  then show ?thesis
  proof cases
    case a
    from two_chars_spelling [OF a] have "s = two_digits m @ r"
      and "\<exists>c1 \<in> set ''1''. \<exists>c2 \<in> set ''012''. m = 10 * digit_val c1 + digit_val c2"
      by auto
    then show ?thesis by (auto simp: month_spellings_def digit_val_def)
  next
    case b
    from two_chars_spelling [OF b] have "s = two_digits m @ r"
      and "\<exists>c1 \<in> set ''0''. \<exists>c2 \<in> set ''123456789''. m = 10 * digit_val c1 + digit_val c2"
      by auto
    then show ?thesis by (auto simp: month_spellings_def digit_val_def)
  next
    case c
    from one_char_sound [OF c] obtain c1 where
      "s = c1 # r" "c1 \<in> set ''123456789''" "m = digit_val c1" by blast
    with one_to_nine [of c1] show ?thesis by (simp add: month_spellings_def)
  qed
qed

lemma day_alts_sound:
  assumes "(d, r) \<in> set (day_alts s)"
  shows "1 \<le> d \<and> d \<le> 31 \<and> (\<exists>ds \<in> set (day_spellings d). s = ds @ r)"
proof -
  from assms consider
    (a) "(d, r) \<in> set (two_chars ''3'' ''01'' s)"
  | (b) "(d, r) \<in> set (two_chars ''12'' ''0123456789'' s)"
  | (c) "(d, r) \<in> set (two_chars ''0'' ''123456789'' s)"
  | (e) "(d, r) \<in> set (one_char ''123456789'' s)"
  | (f) "(d, r) \<in> set (space_char ''123456789'' s)"
    by (auto simp: day_alts_def)
  then show ?thesis
  proof cases
    case a
    from two_chars_spelling [OF a] have "s = two_digits d @ r"
      and "\<exists>c1 \<in> set ''3''. \<exists>c2 \<in> set ''01''. d = 10 * digit_val c1 + digit_val c2"
      by auto
    then show ?thesis by (auto simp: day_spellings_def digit_val_def)
  next
    case b
    from two_chars_spelling [OF b] have "s = two_digits d @ r"
      and "\<exists>c1 \<in> set ''12''. \<exists>c2 \<in> set ''0123456789''. d = 10 * digit_val c1 + digit_val c2"
      by auto
    then show ?thesis by (auto simp: day_spellings_def digit_val_def)
  next
    case c
    from two_chars_spelling [OF c] have "s = two_digits d @ r"
      and "\<exists>c1 \<in> set ''0''. \<exists>c2 \<in> set ''123456789''. d = 10 * digit_val c1 + digit_val c2"
      by auto
    then show ?thesis by (auto simp: day_spellings_def digit_val_def)
  next
    case e
    from one_char_sound [OF e] obtain c1 where
      "s = c1 # r" "c1 \<in> set ''123456789''" "d = digit_val c1" by blast
    with one_to_nine [of c1] show ?thesis by (simp add: day_spellings_def)
  next
    case f
    from space_char_sound [OF f] obtain c2 where
      "s = CHR '' '' # c2 # r" "c2 \<in> set ''123456789''" "d = digit_val c2" by blast
    with one_to_nine [of c2] show ?thesis by (simp add: day_spellings_def)
  qed
qed

lemma days_in_month_le: "days_in_month y m \<le> 31"
  by (simp add: days_in_month_def)

lemma digits_combine:
  fixes y q1 q2 q3 b c d :: nat
  assumes "y = 10 * q1 + d" "q1 = 10 * q2 + c" "q2 = 10 * q3 + b"
  shows "1000 * q3 + 100 * b + 10 * c + d = y"
  using assms by simp

lemma year_digits:
  "1000 * (y div 1000) + 100 * (y div 100 mod 10) + 10 * (y div 10 mod 10) + y mod 10 = (y::nat)"
proof (rule digits_combine)
  show "y = 10 * (y div 10) + y mod 10" by simp
  have "y div 10 div 10 = y div 100" by (simp add: div_mult2_eq [symmetric])
  then show "y div 10 = 10 * (y div 100) + y div 10 mod 10"
    by (metis mult_div_mod_eq)
  have "y div 100 div 10 = y div 1000" by (simp add: div_mult2_eq [symmetric])
  then show "y div 100 = 10 * (y div 1000) + y div 100 mod 10"
    by (metis mult_div_mod_eq)
qed

lemma four_digits_parse:
  assumes "y \<le> 9999"
  shows "\<exists>y1 y2 y3 y4. four_digits y = [y1, y2, y3, y4]
           \<and> set [y1, y2, y3, y4] \<subseteq> set ''0123456789''
           \<and> 1000 * digit_val y1 + 100 * digit_val y2 + 10 * digit_val y3 + digit_val y4 = y"
proof -
  from assms have "y div 1000 < 10" by simp
  then have b: "y div 1000 < 10" "y div 100 mod 10 < 10" "y div 10 mod 10 < 10"
    "y mod 10 < 10" by simp_all
  note dc = digit_char_val [OF b(1)] digit_char_val [OF b(2)] digit_char_val [OF b(3)]
      digit_char_val [OF b(4)]
  have "1000 * digit_val (digit_char (y div 1000))
        + 100 * digit_val (digit_char (y div 100 mod 10))
        + 10 * digit_val (digit_char (y div 10 mod 10))
        + digit_val (digit_char (y mod 10)) = y"
    using dc by (simp only: year_digits)
  moreover have "set (four_digits y) \<subseteq> set ''0123456789''"
    using dc by (simp only: four_digits_def list.set insert_subset empty_subsetI simp_thms)
  ultimately show ?thesis
    unfolding four_digits_def by blast
qed

lemma year_of_digits:
  assumes "set [y1, y2, y3, y4] \<subseteq> set ''0123456789''"
  shows "1000 * digit_val y1 + 100 * digit_val y2 + 10 * digit_val y3 + digit_val y4 \<le> 9999
       \<and> four_digits (1000 * digit_val y1 + 100 * digit_val y2 + 10 * digit_val y3
                       + digit_val y4) = [y1, y2, y3, y4]"
proof -
  let ?a = "digit_val y1" and ?b = "digit_val y2" and ?c = "digit_val y3" and ?d = "digit_val y4"
  let ?y = "1000 * ?a + 100 * ?b + 10 * ?c + ?d"
  from assms have v: "?a < 10" "?b < 10" "?c < 10" "?d < 10"
    and c: "digit_char ?a = y1" "digit_char ?b = y2" "digit_char ?c = y3" "digit_char ?d = y4"
    using digit_val_char by simp_all
  have e0: "?y = 10 * (100 * ?a + 10 * ?b + ?c) + ?d" by simp
  have e1: "100 * ?a + 10 * ?b + ?c = 10 * (10 * ?a + ?b) + ?c" by simp
  have d1: "?y div 10 = 100 * ?a + 10 * ?b + ?c" and q0: "?y mod 10 = ?d"
    unfolding e0 using v(4) by (rule div_mod_digit)+
  have d2: "(100 * ?a + 10 * ?b + ?c) div 10 = 10 * ?a + ?b"
    and m2: "(100 * ?a + 10 * ?b + ?c) mod 10 = ?c"
    unfolding e1 using v(3) by (rule div_mod_digit)+
  have d3: "(10 * ?a + ?b) div 10 = ?a" and m3: "(10 * ?a + ?b) mod 10 = ?b"
    using v(2) by (rule div_mod_digit)+
  have "?y div 100 = ?y div 10 div 10" by (simp add: div_mult2_eq [symmetric])
  then have d100: "?y div 100 = 10 * ?a + ?b" by (simp only: d1 d2)
  have "?y div 1000 = ?y div 100 div 10" by (simp add: div_mult2_eq [symmetric])
  then have q3: "?y div 1000 = ?a" by (simp only: d100 d3)
  have q2: "?y div 100 mod 10 = ?b" by (simp only: d100 m3)
  have q1: "?y div 10 mod 10 = ?c" by (simp only: d1 m2)
  have "?y \<le> 9999" using v by simp
  moreover have "four_digits ?y = [y1, y2, y3, y4]"
    unfolding four_digits_def q3 q2 q1 q0 c ..
  ultimately show ?thesis ..
qed

text \<open>The parse of a date whose month and day are spelled so that the first alternatives
  that match read them.\<close>

lemma strptime_ymd_found:
  assumes "is_date y m d"
    and ma: "\<exists>more. month_alts (ms @ ds) = (m, ds) # more"
    and da: "\<exists>more. day_alts ds = (d, []) # more"
  shows "strptime_ymd (four_digits y @ ms @ ds) =
           Inr \<lparr>tm_year = int y, tm_mon = int m, tm_mday = int d,
                tm_hour = 0, tm_min = 0, tm_sec = 0,
                tm_wday = int ((toordinal y m d + 6) mod 7),
                tm_yday = int (days_before_month y m + d),
                tm_isdst = - 1\<rparr>"
proof -
  from assms(1) have y: "1 \<le> y" "y \<le> 9999" and d: "d \<le> days_in_month y m"
    by (simp_all add: is_date_def)
  from four_digits_parse [OF y(2)] obtain y1 y2 y3 y4 where
    fd: "four_digits y = [y1, y2, y3, y4]"
    and dg: "set [y1, y2, y3, y4] \<subseteq> set ''0123456789''"
    and yv: "1000 * digit_val y1 + 100 * digit_val y2 + 10 * digit_val y3 + digit_val y4 = y"
    by blast
  from ma obtain more1 where ma': "month_alts (ms @ ds) = (m, ds) # more1" by blast
  from da obtain more2 where da': "day_alts ds = (d, []) # more2" by blast
  have found: "concat (map (\<lambda>mr. map (\<lambda>dr. (fst mr, fst dr, snd dr)) (day_alts (snd mr)))
                        (month_alts (ms @ ds)))
               = (m, d, []) # (map (\<lambda>dr. (m, fst dr, snd dr)) more2
                   @ concat (map (\<lambda>mr. map (\<lambda>dr. (fst mr, fst dr, snd dr)) (day_alts (snd mr)))
                        more1))"
    by (simp add: ma' da')
  have ok: "\<not> (y < 1 \<or> days_in_month y m < d)" using y d by simp
  have "strptime_ymd (y1 # y2 # y3 # y4 # ms @ ds) =
           Inr \<lparr>tm_year = int y, tm_mon = int m, tm_mday = int d,
                tm_hour = 0, tm_min = 0, tm_sec = 0,
                tm_wday = int ((toordinal y m d + 6) mod 7),
                tm_yday = int (days_before_month y m + d),
                tm_isdst = - 1\<rparr>"
    unfolding strptime_ymd_def list.case if_P [OF dg] Let_def yv found prod.case if_not_P [OF ok]
    by simp
  then show ?thesis by (simp add: fd)
qed

lemma month_alts_one_digit:
  assumes "2 \<le> m" "m \<le> 9"
  shows "\<exists>more. month_alts (digit_char m # r) = (m, r) # more"
proof -
  from assms have "m = 2 \<or> m = 3 \<or> m = 4 \<or> m = 5 \<or> m = 6 \<or> m = 7 \<or> m = 8 \<or> m = 9"
    by arith
  then show ?thesis
    by (elim disjE)
       (simp_all add: alts_eval digit_char_def digit_val_def split: list.splits)
qed

lemma day_alts_one_digit:
  assumes "1 \<le> d" "d \<le> 9"
  shows "\<exists>more. day_alts [digit_char d] = (d, []) # more"
proof -
  from assms have "d = 1 \<or> d = 2 \<or> d = 3 \<or> d = 4 \<or> d = 5 \<or> d = 6 \<or> d = 7 \<or> d = 8 \<or> d = 9"
    by arith
  then show ?thesis
    by (elim disjE) (simp_all add: alts_eval digit_char_def digit_val_def)
qed

lemma is_date_ranges:
  "is_date y m d \<Longrightarrow> 1 \<le> m \<and> m \<le> 12 \<and> 1 \<le> d \<and> d \<le> 31"
  using days_in_month_le [of y m] by (simp add: is_date_def)

lemma strptime_ymd_date:
  assumes "is_date y m d"
  shows "strptime_ymd (yyyymmdd y m d) =
           Inr \<lparr>tm_year = int y, tm_mon = int m, tm_mday = int d,
                tm_hour = 0, tm_min = 0, tm_sec = 0,
                tm_wday = int ((toordinal y m d + 6) mod 7),
                tm_yday = int (days_before_month y m + d),
                tm_isdst = - 1\<rparr>"
  unfolding yyyymmdd_def using is_date_ranges [OF assms]
  by (intro strptime_ymd_found [OF assms] month_alts_two_digits
        day_alts_two_digits [of d "[]", simplified]) simp_all

lemma strptime_ymd_short_month:
  assumes "is_date y m d" "2 \<le> m" "m \<le> 9"
  shows "strptime_ymd (four_digits y @ [digit_char m] @ two_digits d) = strptime_ymd (yyyymmdd y m d)"
  unfolding strptime_ymd_date [OF assms(1)] using is_date_ranges [OF assms(1)] assms(2,3)
  by (intro strptime_ymd_found [OF assms(1)] day_alts_two_digits [of d "[]", simplified])
     (simp_all add: month_alts_one_digit)

lemma strptime_ymd_short_day:
  assumes "is_date y m d" "d \<le> 9"
  shows "strptime_ymd (four_digits y @ two_digits m @ [digit_char d]) = strptime_ymd (yyyymmdd y m d)"
  unfolding strptime_ymd_date [OF assms(1)] using is_date_ranges [OF assms(1)] assms(2)
  by (intro strptime_ymd_found [OF assms(1)] month_alts_two_digits day_alts_one_digit) simp_all

lemma strptime_ymd_error: "strptime_ymd s = Inl e \<Longrightarrow> e = ValueError"
  by (auto simp: strptime_ymd_def Let_def split: list.splits if_splits prod.splits)

lemma strptime_ymd_spelling:
  assumes "strptime_ymd s = Inr st"
  shows "\<exists>y m d. is_date y m d \<and> s \<in> set (accepted_spellings y m d)"
proof -
  from assms obtain y1 y2 y3 y4 rest where s: "s = y1 # y2 # y3 # y4 # rest"
    by (auto simp: strptime_ymd_def split: list.splits)
  from assms s have dg: "set [y1, y2, y3, y4] \<subseteq> set ''0123456789''"
    by (auto simp: strptime_ymd_def split: if_splits)
  define year where
    "year = 1000 * digit_val y1 + 100 * digit_val y2 + 10 * digit_val y3 + digit_val y4"
  define found where
    "found = concat (map (\<lambda>mr. map (\<lambda>dr. (fst mr, fst dr, snd dr)) (day_alts (snd mr)))
                         (month_alts rest))"
  have eq: "strptime_ymd s =
     (case found of
        [] \<Rightarrow> Inl ValueError
      | (month, day, unconverted) # _ \<Rightarrow>
          if unconverted \<noteq> [] then Inl ValueError
          else if year < 1 \<or> days_in_month year month < day then Inl ValueError
          else Inr \<lparr>tm_year = int year, tm_mon = int month, tm_mday = int day,
                    tm_hour = 0, tm_min = 0, tm_sec = 0,
                    tm_wday = int ((toordinal year month day + 6) mod 7),
                    tm_yday = int (days_before_month year month + day),
                    tm_isdst = - 1\<rparr>)"
    unfolding s strptime_ymd_def list.case if_P [OF dg] Let_def year_def found_def ..
  obtain month day more where
    found: "found = (month, day, []) # more"
    and valid: "1 \<le> year" "day \<le> days_in_month year month"
  proof (cases found)
    case Nil
    with assms eq show ?thesis by simp
  next
    case (Cons p more)
    obtain month day unc where p: "p = (month, day, unc)" by (cases p)
    from assms eq Cons p have "unc = []" "1 \<le> year" "day \<le> days_in_month year month"
      by (simp_all split: if_splits)
    with Cons p that show ?thesis by simp
  qed
  have "(month, day, []) \<in> set found" by (simp only: found list.set insertI1)
  then obtain r1 where mo: "(month, r1) \<in> set (month_alts rest)"
    and da: "(day, []) \<in> set (day_alts r1)"
    unfolding found_def by auto
  from month_alts_sound [OF mo] obtain ms where
    m: "1 \<le> month" "month \<le> 12" "ms \<in> set (month_spellings month)" "rest = ms @ r1"
    by blast
  from day_alts_sound [OF da] obtain ds where
    d: "1 \<le> day" "ds \<in> set (day_spellings day)" "r1 = ds"
    by auto
  from year_of_digits [OF dg] have yr: "year \<le> 9999" "four_digits year = [y1, y2, y3, y4]"
    unfolding year_def by blast+
  from valid m d yr have "is_date year month day" by (simp add: is_date_def)
  moreover have "s = four_digits year @ ms @ ds" by (simp add: s yr(2) m(4) d(3))
  with m(3) d(2) have "s \<in> set (accepted_spellings year month day)"
    unfolding accepted_spellings_def by auto
  ultimately show ?thesis by blast
qed

lemma accepted_spellings_length:
  "s \<in> set (accepted_spellings y m d) \<Longrightarrow> length s \<le> 8"
  by (auto simp: accepted_spellings_def month_spellings_def day_spellings_def four_digits_def
        two_digits_def split: if_splits)

lemma mktime_midnight:
  "mktime X \<lparr>tm_year = int y, tm_mon = int m, tm_mday = int d,
             tm_hour = 0, tm_min = 0, tm_sec = 0, tm_wday = wd, tm_yday = yd,
             tm_isdst = dst\<rparr> = local_midnight X y m d"
  by (simp add: mktime_def timegm_def local_midnight_def)

lemma youtube_parsedate_string:
  "s \<noteq> [] \<Longrightarrow> youtube_parsedate X (PStr s) =
     (case strptime_ymd s of Inl e \<Rightarrow> Inl e | Inr st \<Rightarrow> mktime X st)"
  by (simp add: youtube_parsedate_def)

text \<open>
  The string \<^verbatim>\<open>2017920\<close> has seven characters, so it is no \<^verbatim>\<open>YYYYMMDD\<close> date, and it is
  parsed all the same, as 20 September 2017: the month group of the expression also matches a
  single digit.
\<close>

theorem youtube_parsedate_accepts_short_month:
  "youtube_parsedate null_externals (PStr ''2017920'') = Inr 1505865600"
  by (simp add: date_eval alts_eval null_externals_def upt_conv_Cons)

text \<open>
  C9. \<^verbatim>\<open>youtube_parsedate\<close> returns 0 for \<^verbatim>\<open>None\<close> and for the empty string. For the eight
  digits \<^verbatim>\<open>YYYYMMDD\<close> of a calendar date it returns the Unix timestamp of that date at
  00:00:00 local time (or raises \<^verbatim>\<open>OverflowError\<close> when the platform has none). It returns
  the same for the date written with a one-digit month from 2 to 9 or with a one-digit
  day. It raises \<^verbatim>\<open>ValueError\<close> for every non-empty string that is no spelling of a calendar
  date: four digits for the year, the month as two digits or as one digit, the day as two
  digits, as one digit or as a space and one digit.
\<close>

theorem youtube_parsedate_dates:
  "youtube_parsedate X PNone = Inr 0
   \<and> youtube_parsedate X (PStr []) = Inr 0
   \<and> (is_date y m d
        \<longrightarrow> youtube_parsedate X (PStr (yyyymmdd y m d)) = local_midnight X y m d)
   \<and> (is_date y m d \<and> 2 \<le> m \<and> m \<le> 9
        \<longrightarrow> youtube_parsedate X (PStr (four_digits y @ [digit_char m] @ two_digits d))
            = local_midnight X y m d)
   \<and> (is_date y m d \<and> d \<le> 9
        \<longrightarrow> youtube_parsedate X (PStr (four_digits y @ two_digits m @ [digit_char d]))
            = local_midnight X y m d)
   \<and> (s \<noteq> [] \<and> (\<forall>y' m' d'. is_date y' m' d' \<longrightarrow> s \<notin> set (accepted_spellings y' m' d'))
        \<longrightarrow> youtube_parsedate X (PStr s) = Inl ValueError)"
proof (intro conjI impI)
  show "youtube_parsedate X PNone = Inr 0" by (simp add: youtube_parsedate_def)
  show "youtube_parsedate X (PStr []) = Inr 0" by (simp add: youtube_parsedate_def)
next
  assume a: "is_date y m d"
  have ne: "yyyymmdd y m d \<noteq> []" by (simp add: yyyymmdd_def four_digits_def)
  show "youtube_parsedate X (PStr (yyyymmdd y m d)) = local_midnight X y m d"
    unfolding youtube_parsedate_string [OF ne] strptime_ymd_date [OF a] sum.case
    by (rule mktime_midnight)
next
  assume a: "is_date y m d \<and> 2 \<le> m \<and> m \<le> 9"
  then have a': "is_date y m d" "2 \<le> m" "m \<le> 9" by simp_all
  have ne: "four_digits y @ [digit_char m] @ two_digits d \<noteq> []"
    by (simp add: four_digits_def)
  show "youtube_parsedate X (PStr (four_digits y @ [digit_char m] @ two_digits d))
               = local_midnight X y m d"
    unfolding youtube_parsedate_string [OF ne] strptime_ymd_short_month [OF a']
      strptime_ymd_date [OF a'(1)] sum.case
    by (rule mktime_midnight)
next
  assume a: "is_date y m d \<and> d \<le> 9"
  then have a': "is_date y m d" "d \<le> 9" by simp_all
  have ne: "four_digits y @ two_digits m @ [digit_char d] \<noteq> []"
    by (simp add: four_digits_def)
  show "youtube_parsedate X (PStr (four_digits y @ two_digits m @ [digit_char d]))
               = local_midnight X y m d"
    unfolding youtube_parsedate_string [OF ne] strptime_ymd_short_day [OF a']
      strptime_ymd_date [OF a'(1)] sum.case
    by (rule mktime_midnight)
next
  assume a: "s \<noteq> [] \<and> (\<forall>y' m' d'. is_date y' m' d' \<longrightarrow> s \<notin> set (accepted_spellings y' m' d'))"
  show "youtube_parsedate X (PStr s) = Inl ValueError"
  proof (cases "strptime_ymd s")
    case (Inl e)
    with strptime_ymd_error [OF Inl] a show ?thesis by (simp add: youtube_parsedate_string)
  next
    case (Inr st)
    from strptime_ymd_spelling [OF Inr] a show ?thesis by blast
  qed
qed

theorem youtube_parsedate_dates_witness:
  "youtube_parsedate cest_externals PNone = Inr 0
   \<and> youtube_parsedate cest_externals (PStr []) = Inr 0
   \<and> youtube_parsedate cest_externals (PStr ''20170920'') = Inr 1505858400
   \<and> youtube_parsedate cest_externals (PStr ''2017920'') = Inr 1505858400
   \<and> youtube_parsedate cest_externals (PStr ''2017092'') = Inr 1504303200
   \<and> youtube_parsedate cest_externals (PStr ''2017-09-20'') = Inl ValueError"
proof -
  have d20: "is_date 2017 9 20" and d2: "is_date 2017 9 2"
    by (simp_all add: is_date_def days_in_month_def)
  have spell: "yyyymmdd 2017 9 20 = ''20170920''"
    "four_digits 2017 @ [digit_char 9] @ two_digits 20 = ''2017920''"
    "four_digits 2017 @ two_digits 9 @ [digit_char 2] = ''2017092''"
    by (simp_all add: yyyymmdd_def four_digits_def two_digits_def digit_char_def)
  have midnight: "local_midnight cest_externals 2017 9 20 = Inr 1505858400"
    "local_midnight cest_externals 2017 9 2 = Inr 1504303200"
    by (simp_all add: local_midnight_def cest_externals_def null_externals_def date_eval
          upt_conv_Cons)
  have other: "''2017-09-20'' \<noteq> []
      \<and> (\<forall>y' m' d'. is_date y' m' d' \<longrightarrow> ''2017-09-20'' \<notin> set (accepted_spellings y' m' d'))"
    using accepted_spellings_length [of "''2017-09-20''"] by auto
  have m9: "(2::nat) \<le> 9 \<and> (9::nat) \<le> 9" and day2: "(2::nat) \<le> 9" by simp_all
  note on20 = youtube_parsedate_dates [of cest_externals 2017 9 20 "''2017-09-20''",
                unfolded spell midnight]
  note on2 = youtube_parsedate_dates [of cest_externals 2017 9 2 "''2017-09-20''",
                unfolded spell midnight]
  from on20 d20 m9 other on2 d2 day2 show ?thesis by blast
qed

subsection \<open>New episodes of a feed\<close>

lemma trim_enumerate:
  "map snd (filter (\<lambda>ie. int (fst ie) < m) (enumerate n es)) = take (nat m - n) es"
proof (induction es arbitrary: n)
  case Nil
  then show ?case by simp
next
  case (Cons e es)
  show ?case
  proof (cases "int n < m")
    case True
    then have "nat m - n = Suc (nat m - Suc n)" by arith
    with True show ?thesis by (simp add: Cons.IH)
  next
    case False
    then have "nat m - n = 0" "nat m - Suc n = 0" by arith+
    with False show ?thesis by (simp add: Cons.IH)
  qed
qed

lemma trim_entries_eq: "trim_entries m es = (if m = 0 then es else take (nat m) es)"
proof (cases "m = 0")
  case True
  then show ?thesis by (simp add: trim_entries_def)
next
  case False
  then have "trim_entries m es = map snd (filter (\<lambda>ie. int (fst ie) < m) (enumerate 0 es))"
    by (simp add: trim_entries_def)
  with False show ?thesis by (simp add: trim_enumerate)
qed

lemma episode_of_entry_guid:
  "episode_of_entry X en = Inr ep \<Longrightarrow> ep_guid ep = video_guid X (dict_get en ''id'')"
  by (auto simp: episode_of_entry_def Let_def dict_item_def dict_get_def
           split: sum.splits option.splits)

lemma make_episodes_world:
  "make_episodes X ens w = (w', r) \<Longrightarrow>
     enrich_calls w' = enrich_calls w \<and>
     (\<forall>eps. r = Inr eps \<longrightarrow>
        saved w' = saved w @ eps \<and>
        map ep_guid eps = map (\<lambda>en. video_guid X (dict_get en ''id'')) ens)"
proof (induction ens arbitrary: w w' r)
  case Nil
  then show ?case by auto
next
  case (Cons en ens)
  show ?case
  proof (cases "episode_of_entry X en")
    case (Inl e)
    with Cons.prems show ?thesis by auto
  next
    case (Inr ep)
    obtain w'' r'' where rest: "make_episodes X ens (w\<lparr>saved := saved w @ [ep]\<rparr>) = (w'', r'')"
      by (cases "make_episodes X ens (w\<lparr>saved := saved w @ [ep]\<rparr>)")
    from Cons.IH [OF rest] episode_of_entry_guid [OF Inr] Cons.prems Inr rest
    show ?thesis by (cases r'') auto
  qed
qed

lemma entry_guids_Inr:
  "entry_guids es = Inr gs \<longleftrightarrow>
     map (\<lambda>e. map_of e ''guid'') es = map Some gs \<and> (\<forall>g \<in> set gs. hashable g)"
proof (induction es arbitrary: gs)
  case Nil
  then show ?case by auto
next
  case (Cons e es)
  show ?case
  proof (cases gs)
    case Nil
    then show ?thesis by (auto simp: dict_item_def split: option.splits sum.splits)
  next
    case (Cons g gs')
    with Cons.IH [of gs'] show ?thesis
      by (auto simp: dict_item_def split: option.splits sum.splits)
  qed
qed

text \<open>What a returning call of \<^verbatim>\<open>get_new_episodes\<close> has done, and conversely.\<close>

lemma get_new_episodes_returns:
  assumes "entries (feed_ie_result self) = Some all_entries"
    and "entry_guids (trim_entries (max_episodes self) all_entries) = Inr gs"
    and "r1 = (feed_ie_result self)\<lparr>entries :=
            Some (filter (\<lambda>e. dict_get e ''guid'' \<notin> existing)
                    (trim_entries (max_episodes self) all_entries))\<rparr>"
    and "process_ie_result X r1 = (r2, exc)"
    and "exc = None \<or> (\<exists>msg. exc = Some (DownloadError msg))"
    and "entries r2 = Some ens"
    and "make_episodes X ens (w\<lparr>enrich_calls := enrich_calls w @ [r1]\<rparr>) = (w2, Inr eps)"
  shows "get_new_episodes X self w existing
           = ((self\<lparr>feed_ie_result := r2\<rparr>, w2), Inr (eps, set gs))"
  using assms
  by (auto simp: get_new_episodes_def refresh_entries_def Let_def)

lemma get_new_episodes_returned:
  assumes "get_new_episodes X self w existing = ((self1, w1), Inr (eps, G))"
  obtains all_entries gs r1 r2 exc ens where
    "entries (feed_ie_result self) = Some all_entries"
    "entry_guids (trim_entries (max_episodes self) all_entries) = Inr gs"
    "r1 = (feed_ie_result self)\<lparr>entries :=
            Some (filter (\<lambda>e. dict_get e ''guid'' \<notin> existing)
                    (trim_entries (max_episodes self) all_entries))\<rparr>"
    "process_ie_result X r1 = (r2, exc)"
    "exc = None \<or> (\<exists>msg. exc = Some (DownloadError msg))"
    "entries r2 = Some ens"
    "make_episodes X ens (w\<lparr>enrich_calls := enrich_calls w @ [r1]\<rparr>) = (w1, Inr eps)"
    "self1 = self\<lparr>feed_ie_result := r2\<rparr>"
    "G = set gs"
proof -
  from assms obtain all_entries where a: "entries (feed_ie_result self) = Some all_entries"
    by (cases "entries (feed_ie_result self)") (auto simp: get_new_episodes_def)
  let ?trimmed = "trim_entries (max_episodes self) all_entries"
  from assms a obtain gs where g: "entry_guids ?trimmed = Inr gs"
    by (cases "entry_guids ?trimmed") (auto simp: get_new_episodes_def Let_def)
  let ?r1 = "(feed_ie_result self)\<lparr>entries :=
            Some (filter (\<lambda>e. dict_get e ''guid'' \<notin> existing) ?trimmed)\<rparr>"
  obtain r2 exc where p: "process_ie_result X ?r1 = (r2, exc)"
    by (cases "process_ie_result X ?r1")
  from assms a g p have sw: "exc = None \<or> (\<exists>msg. exc = Some (DownloadError msg))"
    by (auto simp: get_new_episodes_def Let_def refresh_entries_def
             split: option.splits error.splits)
  from assms a g p sw obtain ens where e: "entries r2 = Some ens"
    by (cases "entries r2") (auto simp: get_new_episodes_def Let_def refresh_entries_def)
  obtain w2 r where m: "make_episodes X ens (w\<lparr>enrich_calls := enrich_calls w @ [?r1]\<rparr>) = (w2, r)"
    by (cases "make_episodes X ens (w\<lparr>enrich_calls := enrich_calls w @ [?r1]\<rparr>)")
  from assms a g p sw e m have "r = Inr eps" "w2 = w1" "self1 = self\<lparr>feed_ie_result := r2\<rparr>" "G = set gs"
    by (cases r; auto simp: get_new_episodes_def Let_def refresh_entries_def)+
  with a g p sw e m that show thesis by blast
qed

lemma get_new_episodes_calls:
  assumes "entries (feed_ie_result self) = Some all_entries"
    and "entry_guids (trim_entries (max_episodes self) all_entries) = Inr gs"
  shows "enrich_calls (snd (fst (get_new_episodes X self w existing)))
           = enrich_calls w
             @ [(feed_ie_result self)\<lparr>entries :=
                  Some (filter (\<lambda>e. dict_get e ''guid'' \<notin> existing)
                          (trim_entries (max_episodes self) all_entries))\<rparr>]"
proof -
  let ?r1 = "(feed_ie_result self)\<lparr>entries :=
                  Some (filter (\<lambda>e. dict_get e ''guid'' \<notin> existing)
                          (trim_entries (max_episodes self) all_entries))\<rparr>"
  let ?w1 = "w\<lparr>enrich_calls := enrich_calls w @ [?r1]\<rparr>"
  obtain r2 exc where p: "process_ie_result X ?r1 = (r2, exc)"
    by (cases "process_ie_result X ?r1")
  show ?thesis
  proof (cases "exc = None \<or> (\<exists>msg. exc = Some (DownloadError msg))")
    case False
    with assms p show ?thesis
      by (auto simp: get_new_episodes_def refresh_entries_def Let_def
               split: option.splits error.splits)
  next
    case True
    show ?thesis
    proof (cases "entries r2")
      case None
      with assms p True show ?thesis
        by (auto simp: get_new_episodes_def refresh_entries_def Let_def)
    next
      case (Some ens)
      obtain w2 r where m: "make_episodes X ens ?w1 = (w2, r)"
        by (cases "make_episodes X ens ?w1")
      from make_episodes_world [OF m] have "enrich_calls w2 = enrich_calls w @ [?r1]" by simp
      with assms p True Some m show ?thesis
        by (cases r) (auto simp: get_new_episodes_def refresh_entries_def Let_def)
    qed
  qed
qed

text \<open>
  C4. Let the trimmed entries of a feed carry the GUIDs \<open>A\<close>, \<open>B\<close>, \<open>C\<close>, \<open>D\<close> in this
  order, with \<open>C\<close> and \<open>D\<close> different from \<open>A\<close> and \<open>B\<close>, and let the known GUIDs be \<open>A\<close> and
  \<open>B\<close>. Then \<^verbatim>\<open>get_new_episodes\<close> calls the backend exactly once, on the feed's result with
  the entries replaced by the third and fourth trimmed entry; whenever it returns, the GUID
  set it returns is \<open>{A, B, C, D}\<close>; and it does return, with the episodes built, when the
  backend raises nothing but a \<^verbatim>\<open>DownloadError\<close> and the episodes of the entries it leaves
  can be built. The trimmed entries are the first \<^verbatim>\<open>max_episodes\<close> entries when
  \<^verbatim>\<open>max_episodes > 0\<close> and all entries when it is 0.
\<close>

theorem get_new_episodes_selects_new:
  assumes feed: "entries (feed_ie_result self) = Some all_entries"
    and trimmed: "trim_entries (max_episodes self) all_entries = [eA, eB, eC, eD]"
    and guids: "map_of eA ''guid'' = Some (PStr A)" "map_of eB ''guid'' = Some (PStr B)"
               "map_of eC ''guid'' = Some (PStr C)" "map_of eD ''guid'' = Some (PStr D)"
    and new: "C \<notin> {A, B}" "D \<notin> {A, B}"
  shows "enrich_calls (snd (fst (get_new_episodes X self w {PStr A, PStr B})))
           = enrich_calls w @ [(feed_ie_result self)\<lparr>entries := Some [eC, eD]\<rparr>]
       \<and> (\<forall>eps G. snd (get_new_episodes X self w {PStr A, PStr B}) = Inr (eps, G)
             \<longrightarrow> G = {PStr A, PStr B, PStr C, PStr D})
       \<and> (\<forall>r2 exc ens w2 eps.
             process_ie_result X ((feed_ie_result self)\<lparr>entries := Some [eC, eD]\<rparr>) = (r2, exc)
             \<and> (exc = None \<or> (\<exists>msg. exc = Some (DownloadError msg)))
             \<and> entries r2 = Some ens
             \<and> make_episodes X ens
                 (w\<lparr>enrich_calls := enrich_calls w
                      @ [(feed_ie_result self)\<lparr>entries := Some [eC, eD]\<rparr>]\<rparr>) = (w2, Inr eps)
             \<longrightarrow> get_new_episodes X self w {PStr A, PStr B}
                 = ((self\<lparr>feed_ie_result := r2\<rparr>, w2),
                    Inr (eps, {PStr A, PStr B, PStr C, PStr D})))
       \<and> (0 < max_episodes self
            \<longrightarrow> [eA, eB, eC, eD] = take (nat (max_episodes self)) all_entries)
       \<and> (max_episodes self = 0 \<longrightarrow> [eA, eB, eC, eD] = all_entries)"
proof -
  let ?r1 = "(feed_ie_result self)\<lparr>entries := Some [eC, eD]\<rparr>"
  have g: "entry_guids (trim_entries (max_episodes self) all_entries)
             = Inr [PStr A, PStr B, PStr C, PStr D]"
    using guids by (simp add: trimmed dict_item_def)
  have f: "filter (\<lambda>e. dict_get e ''guid'' \<notin> {PStr A, PStr B})
             (trim_entries (max_episodes self) all_entries) = [eC, eD]"
    using guids new by (simp add: trimmed dict_get_def)
  have calls: "enrich_calls (snd (fst (get_new_episodes X self w {PStr A, PStr B})))
                 = enrich_calls w @ [?r1]"
    using get_new_episodes_calls [OF feed g, of X w "{PStr A, PStr B}"] by (simp only: f)
  have guid_set: "\<forall>eps G. snd (get_new_episodes X self w {PStr A, PStr B}) = Inr (eps, G)
                 \<longrightarrow> G = {PStr A, PStr B, PStr C, PStr D}"
  proof (intro allI impI)
    fix eps G
    assume r: "snd (get_new_episodes X self w {PStr A, PStr B}) = Inr (eps, G)"
    obtain self1 w1 where
      "get_new_episodes X self w {PStr A, PStr B} = ((self1, w1), Inr (eps, G))"
      using r by (cases "get_new_episodes X self w {PStr A, PStr B}") auto
    then obtain all' gs where "entries (feed_ie_result self) = Some all'"
      "entry_guids (trim_entries (max_episodes self) all') = Inr gs" "G = set gs"
      by (rule get_new_episodes_returned)
    with feed g show "G = {PStr A, PStr B, PStr C, PStr D}" by auto
  qed
  have returns: "\<forall>r2 exc ens w2 eps.
             process_ie_result X ?r1 = (r2, exc)
             \<and> (exc = None \<or> (\<exists>msg. exc = Some (DownloadError msg)))
             \<and> entries r2 = Some ens
             \<and> make_episodes X ens (w\<lparr>enrich_calls := enrich_calls w @ [?r1]\<rparr>) = (w2, Inr eps)
             \<longrightarrow> get_new_episodes X self w {PStr A, PStr B}
                 = ((self\<lparr>feed_ie_result := r2\<rparr>, w2),
                    Inr (eps, {PStr A, PStr B, PStr C, PStr D}))"
  proof (intro allI impI, elim conjE)
    fix r2 exc ens w2 eps
    assume backend: "process_ie_result X ?r1 = (r2, exc)"
      and swallowed: "exc = None \<or> (\<exists>msg. exc = Some (DownloadError msg))"
      and enriched: "entries r2 = Some ens"
      and built: "make_episodes X ens (w\<lparr>enrich_calls := enrich_calls w @ [?r1]\<rparr>)
                    = (w2, Inr eps)"
    have "get_new_episodes X self w {PStr A, PStr B}
          = ((self\<lparr>feed_ie_result := r2\<rparr>, w2),
             Inr (eps, set [PStr A, PStr B, PStr C, PStr D]))"
      by (rule get_new_episodes_returns [OF feed g _ backend swallowed enriched built])
         (simp only: f)
    then show "get_new_episodes X self w {PStr A, PStr B}
                 = ((self\<lparr>feed_ie_result := r2\<rparr>, w2),
                    Inr (eps, {PStr A, PStr B, PStr C, PStr D}))"
      by simp
  qed
  from trimmed
  have t1: "0 < max_episodes self
          \<longrightarrow> [eA, eB, eC, eD] = take (nat (max_episodes self)) all_entries"
    by (auto simp: trim_entries_eq)
  from trimmed have t2: "max_episodes self = 0 \<longrightarrow> [eA, eB, eC, eD] = all_entries"
    by (auto simp: trim_entries_eq)
  from calls guid_set returns t1 t2 show ?thesis by blast
qed

lemmas sample_defs =
  sample_feed_def empty_world_def yt_entry_guid_def yt_entry_def null_externals_def
  fresh_info_externals_def

lemmas episode_eval =
  episode_of_entry_def dict_item_def dict_get_def dict_get_default_def py_or_def
  youtube_parsedate_def video_guid_def Let_def

lemmas sync_eval =
  get_new_episodes_def refresh_entries_def trim_entries_eq

theorem get_new_episodes_selects_new_witness:
  "\<exists>w2 eps.
     get_new_episodes null_externals sample_feed empty_world
       {PStr ''yt:video:a'', PStr ''yt:video:b''}
     = ((sample_feed\<lparr>feed_ie_result :=
           (feed_ie_result sample_feed)\<lparr>entries :=
              Some [yt_entry_guid ''c'', yt_entry_guid ''d'']\<rparr>\<rparr>, w2),
        Inr (eps, {PStr ''yt:video:a'', PStr ''yt:video:b'', PStr ''yt:video:c'',
                   PStr ''yt:video:d''}))
     \<and> enrich_calls w2
         = enrich_calls empty_world
           @ [(feed_ie_result sample_feed)\<lparr>entries :=
                 Some [yt_entry_guid ''c'', yt_entry_guid ''d'']\<rparr>]
     \<and> [yt_entry_guid ''a'', yt_entry_guid ''b'', yt_entry_guid ''c'', yt_entry_guid ''d'']
         = take (nat (max_episodes sample_feed))
             [yt_entry_guid ''a'', yt_entry_guid ''b'', yt_entry_guid ''c'',
              yt_entry_guid ''d'', yt_entry_guid ''e'']"
proof -
  let ?r1 = "(feed_ie_result sample_feed)\<lparr>entries :=
                 Some [yt_entry_guid ''c'', yt_entry_guid ''d'']\<rparr>"
  let ?E = "{PStr ''yt:video:a'', PStr ''yt:video:b''}"
  have feed: "entries (feed_ie_result sample_feed)
                = Some [yt_entry_guid ''a'', yt_entry_guid ''b'', yt_entry_guid ''c'',
                        yt_entry_guid ''d'', yt_entry_guid ''e'']"
    by (simp add: sample_feed_def)
  have trimmed: "trim_entries (max_episodes sample_feed)
                   [yt_entry_guid ''a'', yt_entry_guid ''b'', yt_entry_guid ''c'',
                    yt_entry_guid ''d'', yt_entry_guid ''e'']
                 = [yt_entry_guid ''a'', yt_entry_guid ''b'', yt_entry_guid ''c'',
                    yt_entry_guid ''d'']"
    by (simp add: trim_entries_eq sample_feed_def)
  have guids:
    "map_of (yt_entry_guid ''a'') ''guid'' = Some (PStr ''yt:video:a'')"
    "map_of (yt_entry_guid ''b'') ''guid'' = Some (PStr ''yt:video:b'')"
    "map_of (yt_entry_guid ''c'') ''guid'' = Some (PStr ''yt:video:c'')"
    "map_of (yt_entry_guid ''d'') ''guid'' = Some (PStr ''yt:video:d'')"
    by (simp_all add: yt_entry_guid_def yt_entry_def)
  have new: "''yt:video:c'' \<notin> {''yt:video:a'', ''yt:video:b''}"
            "''yt:video:d'' \<notin> {''yt:video:a'', ''yt:video:b''}"
    by simp_all
  have pos: "0 < max_episodes sample_feed" by (simp add: sample_feed_def)
  have backend: "process_ie_result null_externals ?r1 = (?r1, None)"
    by (simp add: null_externals_def)
  have enriched: "entries ?r1 = Some [yt_entry_guid ''c'', yt_entry_guid ''d'']" by simp
  have "\<exists>w2 eps. make_episodes null_externals [yt_entry_guid ''c'', yt_entry_guid ''d'']
           (empty_world\<lparr>enrich_calls := enrich_calls empty_world @ [?r1]\<rparr>) = (w2, Inr eps)"
    by (simp add: episode_eval sample_defs)
  then obtain w2 eps where
    built: "make_episodes null_externals [yt_entry_guid ''c'', yt_entry_guid ''d'']
           (empty_world\<lparr>enrich_calls := enrich_calls empty_world @ [?r1]\<rparr>) = (w2, Inr eps)"
    by blast
  note inst = get_new_episodes_selects_new [OF feed trimmed guids new,
               of null_externals empty_world]
  from inst backend enriched built
  have run: "get_new_episodes null_externals sample_feed empty_world ?E
           = ((sample_feed\<lparr>feed_ie_result := ?r1\<rparr>, w2),
              Inr (eps, {PStr ''yt:video:a'', PStr ''yt:video:b'', PStr ''yt:video:c'',
                         PStr ''yt:video:d''}))"
    by blast
  from inst have "enrich_calls (snd (fst (get_new_episodes null_externals sample_feed
                   empty_world ?E))) = enrich_calls empty_world @ [?r1]"
    by blast
  with run have calls: "enrich_calls w2 = enrich_calls empty_world @ [?r1]" by simp
  from inst pos
  have "[yt_entry_guid ''a'', yt_entry_guid ''b'', yt_entry_guid ''c'', yt_entry_guid ''d'']
         = take (nat (max_episodes sample_feed))
             [yt_entry_guid ''a'', yt_entry_guid ''b'', yt_entry_guid ''c'',
              yt_entry_guid ''d'', yt_entry_guid ''e'']"
    by blast
  with run calls show ?thesis by blast
qed

subsection \<open>Calling \<^verbatim>\<open>get_new_episodes\<close> twice\<close>

lemma dict_get_via_map_of:
  "map (\<lambda>e. dict_get e k) es
     = map (\<lambda>v. case v of None \<Rightarrow> PNone | Some x \<Rightarrow> x) (map (\<lambda>e. map_of e k) es)"
  by (simp add: dict_get_def)

lemma same_lookups_same_gets:
  "map (\<lambda>e. map_of e k) es = map (\<lambda>e. map_of e k) es'
     \<Longrightarrow> map (\<lambda>e. dict_get e k) es = map (\<lambda>e. dict_get e k) es'"
  by (simp only: dict_get_via_map_of)

lemma entry_guids_values:
  "entry_guids es = Inr gs \<Longrightarrow> map (\<lambda>e. dict_get e ''guid'') es = gs"
  by (simp add: entry_guids_Inr dict_get_via_map_of comp_def)

lemma trim_entries_short:
  "length es \<le> length (trim_entries m es') \<Longrightarrow> trim_entries m es = es"
  by (auto simp: trim_entries_eq split: if_splits)

text \<open>
  The entry list of the feed after a call is what the backend has left there. A backend
  that answers each entry with a freshly extracted dictionary leaves entries without
  \<^verbatim>\<open>'guid'\<close>: the first call returns, and the second call on the same feed raises
  \<^verbatim>\<open>KeyError\<close> at \<^verbatim>\<open>e['guid']\<close> instead of returning a GUID set.
\<close>

theorem get_new_episodes_second_call_raises:
  "\<exists>self1 w1 eps1.
     get_new_episodes fresh_info_externals sample_feed empty_world
       {PStr ''yt:video:a'', PStr ''yt:video:b''}
     = ((self1, w1),
        Inr (eps1, {PStr ''yt:video:a'', PStr ''yt:video:b'', PStr ''yt:video:c'',
                    PStr ''yt:video:d''}))
     \<and> entries (feed_ie_result self1)
         = Some [[(''id'', PStr ''c''), (''title'', PStr ''t'')],
                 [(''id'', PStr ''d''), (''title'', PStr ''t'')]]
     \<and> snd (get_new_episodes fresh_info_externals self1 w1
              {PStr ''yt:video:a'', PStr ''yt:video:b''})
         = Inl (KeyError ''guid'')"
  by (simp add: sync_eval episode_eval sample_defs)

text \<open>
  C10. \<^verbatim>\<open>get_new_episodes\<close> hands the backend the feed's result with the entry list
  replaced by the entries that are new for this call, and keeps what the backend leaves.
  When the backend leaves these entries in place with their \<^verbatim>\<open>'id'\<close> and \<^verbatim>\<open>'guid'\<close>, and a
  second call with the same known GUIDs returns as well, the call is not idempotent: the
  second call hands the backend the same result again, returns as GUID set only the GUIDs
  of the first call's new entries (the first call's set without the known GUIDs), and
  creates and saves episodes with the same GUIDs a second time.
\<close>

theorem get_new_episodes_not_idempotent:
  fixes X self w existing all_entries
  defines "new1 \<equiv> filter (\<lambda>e. dict_get e ''guid'' \<notin> existing)
                     (trim_entries (max_episodes self) all_entries)"
  assumes feed: "entries (feed_ie_result self) = Some all_entries"
    and first: "get_new_episodes X self w existing = ((self1, w1), Inr (eps1, guids1))"
    and left1: "entries (feed_ie_result self1) = Some ens1"
    and kept_guids: "map (\<lambda>e. map_of e ''guid'') ens1 = map (\<lambda>e. map_of e ''guid'') new1"
    and kept_ids: "map (\<lambda>e. map_of e ''id'') ens1 = map (\<lambda>e. map_of e ''id'') new1"
    and second: "get_new_episodes X self1 w1 existing = ((self2, w2), Inr (eps2, guids2))"
    and left2: "entries (feed_ie_result self2) = Some ens2"
    and kept_ids2: "map (\<lambda>e. map_of e ''id'') ens2 = map (\<lambda>e. map_of e ''id'') ens1"
  shows "enrich_calls w1 = enrich_calls w @ [(feed_ie_result self)\<lparr>entries := Some new1\<rparr>]
       \<and> guids2 = (\<lambda>e. dict_get e ''guid'') ` set new1
       \<and> guids2 = guids1 - existing
       \<and> enrich_calls w2 = enrich_calls w1 @ [feed_ie_result self1]
       \<and> saved w2 = saved w @ eps1 @ eps2
       \<and> map ep_guid eps1 = map (derived_guid X) new1
       \<and> map ep_guid eps2 = map ep_guid eps1"
proof -
  let ?m = "max_episodes self"
  let ?trimmed = "trim_entries ?m all_entries"
  let ?g = "\<lambda>e. dict_get e ''guid''"
  let ?id = "\<lambda>e. video_guid X (dict_get e ''id'')"
  from first obtain all' gs r1 r2 exc ens where run1:
    "entries (feed_ie_result self) = Some all'"
    "entry_guids (trim_entries ?m all') = Inr gs"
    "r1 = (feed_ie_result self)\<lparr>entries :=
            Some (filter (\<lambda>e. dict_get e ''guid'' \<notin> existing) (trim_entries ?m all'))\<rparr>"
    "process_ie_result X r1 = (r2, exc)"
    "entries r2 = Some ens"
    "make_episodes X ens (w\<lparr>enrich_calls := enrich_calls w @ [r1]\<rparr>) = (w1, Inr eps1)"
    "self1 = self\<lparr>feed_ie_result := r2\<rparr>"
    "guids1 = set gs"
    by (rule get_new_episodes_returned)
  from run1(1) feed have all': "all' = all_entries" by simp
  from run1(3) have r1: "r1 = (feed_ie_result self)\<lparr>entries := Some new1\<rparr>"
    by (simp add: all' new1_def)
  from run1(5,7) left1 have ens: "ens = ens1" by simp
  from run1(7) have m1: "max_episodes self1 = ?m" by simp
  from make_episodes_world [OF run1(6)]
  have w1: "enrich_calls w1 = enrich_calls w @ [r1]" "saved w1 = saved w @ eps1"
    "map ep_guid eps1 = map ?id ens1"
    by (simp_all add: ens)
  from run1(2) have gs: "map ?g ?trimmed = gs"
    by (simp add: all' entry_guids_values)
  from run1(2) have hash: "\<forall>g \<in> set gs. hashable g" and
    looks: "map (\<lambda>e. map_of e ''guid'') ?trimmed = map Some gs"
    by (simp_all add: all' entry_guids_Inr)
  have g_ens1: "map ?g ens1 = map ?g new1"
    by (rule same_lookups_same_gets [OF kept_guids])
  have id_ens1: "map (\<lambda>e. dict_get e ''id'') ens1 = map (\<lambda>e. dict_get e ''id'') new1"
    by (rule same_lookups_same_gets [OF kept_ids])
  have id_ens2: "map (\<lambda>e. dict_get e ''id'') ens2 = map (\<lambda>e. dict_get e ''id'') ens1"
    by (rule same_lookups_same_gets [OF kept_ids2])
  have new1_sub: "set new1 \<subseteq> set ?trimmed" by (auto simp: new1_def)
  have new1_guids: "?g ` set new1 = set gs - existing"
    using gs by (auto simp: new1_def)
  have new1_found: "\<forall>e \<in> set new1. \<exists>g. map_of e ''guid'' = Some g \<and> hashable g"
  proof
    fix e assume "e \<in> set new1"
    with new1_sub have "e \<in> set ?trimmed" by blast
    then have "map_of e ''guid'' \<in> set (map (\<lambda>e. map_of e ''guid'') ?trimmed)" by simp
    with looks have "map_of e ''guid'' \<in> Some ` set gs" by simp
    with hash show "\<exists>g. map_of e ''guid'' = Some g \<and> hashable g" by auto
  qed
  have len: "length ens1 = length new1"
    using kept_guids by (metis length_map)
  have "length new1 \<le> length ?trimmed" by (simp add: new1_def)
  with len have trim2: "trim_entries ?m ens1 = ens1"
    by (simp add: trim_entries_short)
  from second obtain all2 gs2 r1' r2' exc' ens' where run2:
    "entries (feed_ie_result self1) = Some all2"
    "entry_guids (trim_entries (max_episodes self1) all2) = Inr gs2"
    "r1' = (feed_ie_result self1)\<lparr>entries :=
            Some (filter (\<lambda>e. dict_get e ''guid'' \<notin> existing)
                    (trim_entries (max_episodes self1) all2))\<rparr>"
    "process_ie_result X r1' = (r2', exc')"
    "entries r2' = Some ens'"
    "make_episodes X ens' (w1\<lparr>enrich_calls := enrich_calls w1 @ [r1']\<rparr>) = (w2, Inr eps2)"
    "self2 = self1\<lparr>feed_ie_result := r2'\<rparr>"
    "guids2 = set gs2"
    by (rule get_new_episodes_returned)
  from run2(1) left1 have all2: "all2 = ens1" by simp
  from run2(2) have gs2: "map ?g ens1 = gs2"
    by (simp add: all2 m1 trim2 entry_guids_values)
  with g_ens1 have "set gs2 = ?g ` set new1" by (metis set_map)
  with run2(8) have guids2: "guids2 = ?g ` set new1" by simp
  have "set (map ?g ens1) \<inter> existing = {}"
    unfolding g_ens1 using new1_guids by auto
  then have "filter (\<lambda>e. dict_get e ''guid'' \<notin> existing) ens1 = ens1"
    by (auto simp: filter_id_conv)
  with run2(3) left1 have r1': "r1' = feed_ie_result self1"
    by (simp add: all2 m1 trim2)
  from run2(5,7) left2 have ens': "ens' = ens2" by simp
  from make_episodes_world [OF run2(6)]
  have w2: "enrich_calls w2 = enrich_calls w1 @ [r1']" "saved w2 = saved w1 @ eps2"
    "map ep_guid eps2 = map ?id ens2"
    by (simp_all add: ens')
  have split_id: "\<And>es. map ?id es = map (video_guid X) (map (\<lambda>e. dict_get e ''id'') es)"
    by simp
  have ids2: "map ?id ens2 = map ?id ens1"
    by (simp only: split_id id_ens2)
  have "map ?id ens1 = map ?id new1"
    by (simp only: split_id id_ens1)
  then have ids1: "map ?id ens1 = map (derived_guid X) new1"
    by (simp add: derived_guid_def)
  show ?thesis
    using w1 w2 r1 r1' guids2 new1_guids run1(8) ids1 ids2 by simp
qed

theorem get_new_episodes_not_idempotent_witness:
  "\<exists>self1 w1 eps1 self2 w2 eps2.
     get_new_episodes null_externals sample_feed empty_world
       {PStr ''yt:video:a'', PStr ''yt:video:b''}
     = ((self1, w1),
        Inr (eps1, {PStr ''yt:video:a'', PStr ''yt:video:b'', PStr ''yt:video:c'',
                    PStr ''yt:video:d''}))
     \<and> get_new_episodes null_externals self1 w1 {PStr ''yt:video:a'', PStr ''yt:video:b''}
       = ((self2, w2), Inr (eps2, {PStr ''yt:video:c'', PStr ''yt:video:d''}))
     \<and> saved w2 = saved empty_world @ eps1 @ eps2
     \<and> map ep_guid eps2 = map ep_guid eps1"
proof -
  let ?E = "{PStr ''yt:video:a'', PStr ''yt:video:b''}"
  let ?all = "[yt_entry_guid ''a'', yt_entry_guid ''b'', yt_entry_guid ''c'',
               yt_entry_guid ''d'', yt_entry_guid ''e'']"
  let ?new = "[yt_entry_guid ''c'', yt_entry_guid ''d'']"
  let ?self1 = "sample_feed\<lparr>feed_ie_result := (feed_ie_result sample_feed)\<lparr>entries := Some ?new\<rparr>\<rparr>"
  have feed: "entries (feed_ie_result sample_feed) = Some ?all"
    by (simp add: sample_feed_def)
  have "\<exists>w1 eps1. get_new_episodes null_externals sample_feed empty_world ?E
          = ((?self1, w1),
             Inr (eps1, {PStr ''yt:video:a'', PStr ''yt:video:b'', PStr ''yt:video:c'',
                         PStr ''yt:video:d''}))"
    by (simp add: sync_eval episode_eval sample_defs)
  then obtain w1 eps1 where
    first: "get_new_episodes null_externals sample_feed empty_world ?E
          = ((?self1, w1),
             Inr (eps1, {PStr ''yt:video:a'', PStr ''yt:video:b'', PStr ''yt:video:c'',
                         PStr ''yt:video:d''}))"
    by blast
  have left1: "entries (feed_ie_result ?self1) = Some ?new" by simp
  have new1: "filter (\<lambda>e. dict_get e ''guid'' \<notin> ?E)
                (trim_entries (max_episodes sample_feed) ?all) = ?new"
    by (simp add: trim_entries_eq sample_defs dict_get_def)
  have kept_guids: "map (\<lambda>e. map_of e ''guid'') ?new
      = map (\<lambda>e. map_of e ''guid'')
          (filter (\<lambda>e. dict_get e ''guid'' \<notin> ?E)
             (trim_entries (max_episodes sample_feed) ?all))"
    by (simp only: new1)
  have kept_ids: "map (\<lambda>e. map_of e ''id'') ?new
      = map (\<lambda>e. map_of e ''id'')
          (filter (\<lambda>e. dict_get e ''guid'' \<notin> ?E)
             (trim_entries (max_episodes sample_feed) ?all))"
    by (simp only: new1)
  have "\<exists>w2 eps2 guids2. get_new_episodes null_externals ?self1 w1 ?E
          = ((?self1, w2), Inr (eps2, guids2))"
    by (simp add: sync_eval episode_eval sample_defs)
  then obtain w2 eps2 guids2 where
    second: "get_new_episodes null_externals ?self1 w1 ?E = ((?self1, w2), Inr (eps2, guids2))"
    by blast
  have kept_ids2: "map (\<lambda>e. map_of e ''id'') ?new = map (\<lambda>e. map_of e ''id'') ?new" by simp
  from get_new_episodes_not_idempotent
         [OF feed first left1 kept_guids kept_ids second left1 kept_ids2]
  have "guids2 = {PStr ''yt:video:a'', PStr ''yt:video:b'', PStr ''yt:video:c'',
                  PStr ''yt:video:d''} - ?E"
    and "saved w2 = saved empty_world @ eps1 @ eps2"
    and "map ep_guid eps2 = map ep_guid eps1"
    by blast+
  then have "guids2 = {PStr ''yt:video:c'', PStr ''yt:video:d''}"
    and "saved w2 = saved empty_world @ eps1 @ eps2"
    and "map ep_guid eps2 = map ep_guid eps1"
    by auto
  with first second show ?thesis by blast
qed

subsection \<open>Resolving redirections\<close>

lemma map_of_dict_set: "map_of (dict_set d k v) k' = (if k' = k then Some v else map_of d k')"
  by (simp add: dict_set_def update_conv')

lemma extract_result_type_url:
  "map_of (attrs r) ''_type'' = Some (PStr ''url'')
     \<Longrightarrow> extract_result_type X r = Inr (PStr ''url'', False)"
  by (simp add: extract_result_type_def dict_get_default_def)

lemma extract_result_type_playlist:
  "map_of (attrs r) ''_type'' = Some (PStr ''playlist'')
     \<or> map_of (attrs r) ''_type'' = Some (PStr ''multi_video'')
     \<Longrightarrow> \<exists>t. extract_result_type X r = Inr (t, True)"
  by (auto simp: extract_result_type_def dict_get_default_def)

lemma extract_result_type_other:
  "dict_get_default (attrs r) ''_type'' (PStr ''video'') = t
     \<Longrightarrow> t \<notin> {PStr ''url'', PStr ''playlist'', PStr ''multi_video''}
     \<Longrightarrow> extract_result_type X r
           = Inl (PyException (''Unsuported result_type: '' @ py_str X t))"
  by (simp add: extract_result_type_def Let_def)

text \<open>One turn of the loop on a \<^verbatim>\<open>url\<close> result.\<close>

lemma resolve_loop_url_step:
  assumes "map_of (attrs r) ''url'' = Some u" and "sanitize_url X u = Inr u'"
    and "extract_info X u' (dict_get (attrs r) ''ie_key'') = Inr r'"
  shows "resolve_loop X r (PStr ''url'') False =
     (case extract_result_type X r' of
        Inl e \<Rightarrow> Some (Inl e)
      | Inr (result_type', has_playlist') \<Rightarrow> resolve_loop X r' result_type' has_playlist')"
  using assms
  by (subst resolve_loop.simps)
     (simp add: dict_item_def dict_get_def map_of_dict_set)

lemma resolve_loop_done: "resolve_loop X r t True = Some (Inr r)"
  by (subst resolve_loop.simps) simp

text \<open>
  A \<^verbatim>\<open>url_transparent\<close> result is not followed: on the chain \<^verbatim>\<open>url_transparent\<close>,
  \<^verbatim>\<open>url_transparent\<close>, \<^verbatim>\<open>playlist\<close> the first call of the local function \<^verbatim>\<open>extract_type\<close>
  raises, and \<^verbatim>\<open>refresh\<close> ends with that exception.
\<close>

theorem refresh_url_transparent_chain_raises:
  "refresh transparent_chain_externals ''https://www.youtube.com/channel/x''
     ''https://www.youtube.com/feeds/videos.xml?channel_id=x'' 0
   = Some (Inl (PyException ''Unsuported result_type: url_transparent''))"
  by (simp add: refresh_def extract_result_type_def dict_get_default_def
        transparent_chain_externals_def null_externals_def)

text \<open>
  C6. On every chain of backend answers \<^verbatim>\<open>url\<close>, \<^verbatim>\<open>url\<close>, \<^verbatim>\<open>playlist\<close> (or
  \<^verbatim>\<open>multi_video\<close>), each \<^verbatim>\<open>url\<close> result followed at its sanitized URL with its own
  \<^verbatim>\<open>ie_key\<close>, the loop of \<^verbatim>\<open>refresh\<close> ends with the playlist result, and \<^verbatim>\<open>refresh\<close> returns
  the feed that holds it, with its entries filtered. A \<^verbatim>\<open>url_transparent\<close> answer is not
  followed: \<^verbatim>\<open>refresh\<close> ends with the exception for an unsupported result type.
\<close>

theorem refresh_follows_url_chain:
  assumes first: "extract_info X (PStr u) PNone = Inr r1"
    and r1: "map_of (attrs r1) ''_type'' = Some (PStr ''url'')"
            "map_of (attrs r1) ''url'' = Some u1" "sanitize_url X u1 = Inr u1'"
    and second: "extract_info X u1' (dict_get (attrs r1) ''ie_key'') = Inr r2"
    and r2: "map_of (attrs r2) ''_type'' = Some (PStr ''url'')"
            "map_of (attrs r2) ''url'' = Some u2" "sanitize_url X u2 = Inr u2'"
    and third: "extract_info X u2' (dict_get (attrs r2) ''ie_key'') = Inr r3"
    and r3: "map_of (attrs r3) ''_type'' = Some (PStr ''playlist'')
             \<or> map_of (attrs r3) ''_type'' = Some (PStr ''multi_video'')"
    and filtered: "snd (process_entries X m (case entries r3 of None \<Rightarrow> [] | Some es \<Rightarrow> es))
                     = Inr filtered"
  shows "resolve_loop X r1 (PStr ''url'') False = Some (Inr r3)
       \<and> refresh X u channel_url m =
           Some (Inr \<lparr>feed_url = u, cover_url = get_cover X channel_url,
                      description = get_channel_desc X channel_url, max_episodes = m,
                      feed_ie_result = r3\<lparr>entries := Some filtered\<rparr>\<rparr>)
       \<and> (\<forall>v r. extract_info X (PStr v) PNone = Inr r
                \<and> map_of (attrs r) ''_type'' = Some (PStr ''url_transparent'')
              \<longrightarrow> refresh X v channel_url m
                  = Some (Inl (PyException ''Unsuported result_type: url_transparent'')))"
proof -
  have transparent:
    "\<forall>v r. extract_info X (PStr v) PNone = Inr r
            \<and> map_of (attrs r) ''_type'' = Some (PStr ''url_transparent'')
          \<longrightarrow> refresh X v channel_url m
              = Some (Inl (PyException ''Unsuported result_type: url_transparent''))"
    by (simp add: refresh_def extract_result_type_def dict_get_default_def)
  from extract_result_type_playlist [OF r3]
  obtain t where t3: "extract_result_type X r3 = Inr (t, True)" by blast
  have "resolve_loop X r2 (PStr ''url'') False = Some (Inr r3)"
    by (simp add: resolve_loop_url_step [OF r2(2,3) third] t3 resolve_loop_done)
  then have loop: "resolve_loop X r1 (PStr ''url'') False = Some (Inr r3)"
    by (simp add: resolve_loop_url_step [OF r1(2,3) second] extract_result_type_url [OF r2(1)])
  have "refresh X u channel_url m =
           Some (Inr \<lparr>feed_url = u, cover_url = get_cover X channel_url,
                      description = get_channel_desc X channel_url, max_episodes = m,
                      feed_ie_result = r3\<lparr>entries := Some filtered\<rparr>\<rparr>)"
    using first filtered loop
    by (simp add: refresh_def extract_result_type_url [OF r1(1)] new_feed_def)
  with loop transparent show ?thesis by blast
qed

theorem refresh_follows_url_chain_witness:
  "refresh url_chain_externals ''https://www.youtube.com/channel/x''
     ''https://www.youtube.com/feeds/videos.xml?channel_id=x'' 0
   = Some (Inr \<lparr>feed_url = ''https://www.youtube.com/channel/x'', cover_url = PNone,
                description = PNone, max_episodes = 0,
                feed_ie_result =
                  \<lparr>attrs = [(''_type'', PStr ''playlist''), (''id'', PStr ''x'')],
                   entries = Some [yt_entry_guid ''a'']\<rparr>\<rparr>)
   \<and> refresh url_chain_externals ''https://example.org/embedded''
       ''https://www.youtube.com/feeds/videos.xml?channel_id=x'' 0
     = Some (Inl (PyException ''Unsuported result_type: url_transparent''))"
proof -
  let ?X = url_chain_externals
  let ?r1 = "\<lparr>attrs = [(''_type'', PStr ''url''), (''url'', PStr ''u1'')], entries = None\<rparr>"
  let ?r2 = "\<lparr>attrs = [(''_type'', PStr ''url''), (''url'', PStr ''u2''),
                       (''ie_key'', PStr ''YoutubeTab'')], entries = None\<rparr>"
  let ?r3 = "\<lparr>attrs = [(''_type'', PStr ''playlist''), (''id'', PStr ''x'')],
              entries = Some [yt_entry ''a'']\<rparr>"
  have first: "extract_info ?X (PStr ''https://www.youtube.com/channel/x'') PNone = Inr ?r1"
    by (simp add: url_chain_externals_def null_externals_def)
  have r1: "map_of (attrs ?r1) ''_type'' = Some (PStr ''url'')"
    "map_of (attrs ?r1) ''url'' = Some (PStr ''u1'')"
    "sanitize_url ?X (PStr ''u1'') = Inr (PStr ''u1'')"
    by (simp_all add: url_chain_externals_def null_externals_def)
  have second: "extract_info ?X (PStr ''u1'') (dict_get (attrs ?r1) ''ie_key'') = Inr ?r2"
    by (simp add: url_chain_externals_def null_externals_def)
  have r2: "map_of (attrs ?r2) ''_type'' = Some (PStr ''url'')"
    "map_of (attrs ?r2) ''url'' = Some (PStr ''u2'')"
    "sanitize_url ?X (PStr ''u2'') = Inr (PStr ''u2'')"
    by (simp_all add: url_chain_externals_def null_externals_def)
  have third: "extract_info ?X (PStr ''u2'') (dict_get (attrs ?r2) ''ie_key'') = Inr ?r3"
    by (simp add: url_chain_externals_def null_externals_def dict_get_def)
  have r3: "map_of (attrs ?r3) ''_type'' = Some (PStr ''playlist'')
             \<or> map_of (attrs ?r3) ''_type'' = Some (PStr ''multi_video'')"
    by simp
  have filtered: "snd (process_entries ?X 0 (case entries ?r3 of None \<Rightarrow> [] | Some es \<Rightarrow> es))
                     = Inr [yt_entry_guid ''a'']"
    by (simp add: process_entries_def visit_entry_def is_youtube_url_def dict_get_default_def
          dict_get_def dict_item_def dict_set_def video_guid_def yt_entry_def yt_entry_guid_def
          Let_def)
  have embedded:
    "extract_info ?X (PStr ''https://example.org/embedded'') PNone
       = Inr \<lparr>attrs = [(''_type'', PStr ''url_transparent''), (''url'', PStr ''u2'')],
              entries = None\<rparr>
     \<and> map_of (attrs \<lparr>attrs = [(''_type'', PStr ''url_transparent''), (''url'', PStr ''u2'')],
                        entries = None\<rparr>) ''_type'' = Some (PStr ''url_transparent'')"
    by (simp add: url_chain_externals_def null_externals_def)
  note chain = refresh_follows_url_chain [OF first r1 second r2 third r3 filtered,
         of "''https://www.youtube.com/feeds/videos.xml?channel_id=x''"]
  from chain have "refresh ?X ''https://www.youtube.com/channel/x''
     ''https://www.youtube.com/feeds/videos.xml?channel_id=x'' 0
   = Some (Inr \<lparr>feed_url = ''https://www.youtube.com/channel/x'', cover_url = PNone,
                description = PNone, max_episodes = 0,
                feed_ie_result =
                  \<lparr>attrs = [(''_type'', PStr ''playlist''), (''id'', PStr ''x'')],
                   entries = Some [yt_entry_guid ''a'']\<rparr>\<rparr>)"
    by (simp add: url_chain_externals_def null_externals_def)
  moreover from chain embedded
  have "refresh ?X ''https://example.org/embedded''
       ''https://www.youtube.com/feeds/videos.xml?channel_id=x'' 0
     = Some (Inl (PyException ''Unsuported result_type: url_transparent''))"
    by blast
  ultimately show ?thesis by blast
qed

subsection \<open>Results that are neither a redirection nor a playlist\<close>

text \<open>
  A result without \<^verbatim>\<open>_type\<close> counts as \<^verbatim>\<open>video\<close>, and \<^verbatim>\<open>refresh\<close> raises on it: no tree is
  returned.
\<close>

theorem refresh_bare_video_raises:
  "refresh (single_video_externals [(''id'', PStr ''v''), (''title'', PStr ''One video'')])
     ''https://www.youtube.com/channel/x''
     ''https://www.youtube.com/feeds/videos.xml?channel_id=x'' 0
   = Some (Inl (PyException ''Unsuported result_type: video''))"
  by (simp add: refresh_def extract_result_type_def dict_get_default_def
        single_video_externals_def null_externals_def)

text \<open>
  C7. A result whose type is none of \<^verbatim>\<open>url\<close>, \<^verbatim>\<open>playlist\<close>, \<^verbatim>\<open>multi_video\<close> is fatal
  wherever the resolver meets it, as the first answer of the backend or as the target of a
  redirection: \<^verbatim>\<open>refresh\<close> ends with the exception
  \<^verbatim>\<open>Unsuported result_type: <type>\<close>. A bare \<^verbatim>\<open>video\<close>, with \<^verbatim>\<open>_type\<close> present or
  absent, is such a result.
\<close>

theorem refresh_rejects_other_types:
  "(extract_info X (PStr u) PNone = Inr r
     \<and> dict_get_default (attrs r) ''_type'' (PStr ''video'') = t
     \<and> t \<notin> {PStr ''url'', PStr ''playlist'', PStr ''multi_video''}
     \<longrightarrow> refresh X u channel_url m
         = Some (Inl (PyException (''Unsuported result_type: '' @ py_str X t))))
   \<and> (map_of (attrs r0) ''url'' = Some u0 \<and> sanitize_url X u0 = Inr u0'
      \<and> extract_info X u0' (dict_get (attrs r0) ''ie_key'') = Inr r
      \<and> dict_get_default (attrs r) ''_type'' (PStr ''video'') = t
      \<and> t \<notin> {PStr ''url'', PStr ''playlist'', PStr ''multi_video''}
      \<longrightarrow> resolve_loop X r0 (PStr ''url'') False
          = Some (Inl (PyException (''Unsuported result_type: '' @ py_str X t))))
   \<and> (map_of (attrs r) ''_type'' = None \<or> map_of (attrs r) ''_type'' = Some (PStr ''video'')
      \<longrightarrow> extract_result_type X r = Inl (PyException ''Unsuported result_type: video''))"
proof (intro conjI impI)
  assume a: "extract_info X (PStr u) PNone = Inr r
     \<and> dict_get_default (attrs r) ''_type'' (PStr ''video'') = t
     \<and> t \<notin> {PStr ''url'', PStr ''playlist'', PStr ''multi_video''}"
  then have "extract_result_type X r
               = Inl (PyException (''Unsuported result_type: '' @ py_str X t))"
    by (simp add: extract_result_type_other)
  with a show "refresh X u channel_url m
         = Some (Inl (PyException (''Unsuported result_type: '' @ py_str X t)))"
    by (simp add: refresh_def)
next
  assume a: "map_of (attrs r0) ''url'' = Some u0 \<and> sanitize_url X u0 = Inr u0'
      \<and> extract_info X u0' (dict_get (attrs r0) ''ie_key'') = Inr r
      \<and> dict_get_default (attrs r) ''_type'' (PStr ''video'') = t
      \<and> t \<notin> {PStr ''url'', PStr ''playlist'', PStr ''multi_video''}"
  then have bad: "extract_result_type X r
               = Inl (PyException (''Unsuported result_type: '' @ py_str X t))"
    by (simp add: extract_result_type_other)
  from a have "resolve_loop X r0 (PStr ''url'') False =
     (case extract_result_type X r of
        Inl e \<Rightarrow> Some (Inl e)
      | Inr (result_type', has_playlist') \<Rightarrow> resolve_loop X r result_type' has_playlist')"
    using resolve_loop_url_step [of r0 u0 X u0' r] by simp
  with bad show "resolve_loop X r0 (PStr ''url'') False
          = Some (Inl (PyException (''Unsuported result_type: '' @ py_str X t)))"
    by simp
next
  assume "map_of (attrs r) ''_type'' = None \<or> map_of (attrs r) ''_type'' = Some (PStr ''video'')"
  then show "extract_result_type X r = Inl (PyException ''Unsuported result_type: video'')"
    by (auto simp: extract_result_type_def dict_get_default_def)
qed

theorem refresh_rejects_other_types_witness:
  "refresh (single_video_externals [(''_type'', PStr ''video''), (''id'', PStr ''v'')])
     ''https://www.youtube.com/channel/x''
     ''https://www.youtube.com/feeds/videos.xml?channel_id=x'' 0
   = Some (Inl (PyException ''Unsuported result_type: video''))
   \<and> resolve_loop (single_video_externals [(''_type'', PStr ''video''), (''id'', PStr ''v'')])
       \<lparr>attrs = [(''_type'', PStr ''url''), (''url'', PStr ''u1'')], entries = None\<rparr>
       (PStr ''url'') False
     = Some (Inl (PyException ''Unsuported result_type: video''))
   \<and> extract_result_type (single_video_externals [(''_type'', PStr ''video''), (''id'', PStr ''v'')])
       \<lparr>attrs = [(''_type'', PStr ''video''), (''id'', PStr ''v'')], entries = None\<rparr>
     = Inl (PyException ''Unsuported result_type: video'')"
  using refresh_rejects_other_types [where
      X = "single_video_externals [(''_type'', PStr ''video''), (''id'', PStr ''v'')]" and
      u = "''https://www.youtube.com/channel/x''" and
      r = "\<lparr>attrs = [(''_type'', PStr ''video''), (''id'', PStr ''v'')], entries = None\<rparr>" and
      t = "PStr ''video''" and
      channel_url = "''https://www.youtube.com/feeds/videos.xml?channel_id=x''" and
      m = 0 and
      ?r0.0 = "\<lparr>attrs = [(''_type'', PStr ''url''), (''url'', PStr ''u1'')], entries = None\<rparr>" and
      ?u0.0 = "PStr ''u1''" and ?u0' = "PStr ''u1''"]
  by (simp add: single_video_externals_def null_externals_def dict_get_default_def dict_get_def)

end
